theory Spec2Isabelle
  imports Main "HOL-Library.Word"
begin

section \<open>Python values used by serPy\<close>

text \<open>
  A file is a sequence of bytes. A Python \<open>str\<close> is a sequence of Unicode code points,
  a Python \<open>int\<close> is unbounded. The exceptions of \<open>serPy.py\<close> are values of the
  type \<open>error\<close>: every \<open>ValueError\<close> carries the place that raises it (the ones the
  module raises itself, and the two that \<open>numpy\<close> raises inside \<open>read_ser\<close>);
  \<open>StructError\<close> is \<open>struct.error\<close>.
\<close>

type_synonym byte = "8 word"
type_synonym py_str = "nat list"

datatype value_error =
    Invalid_metadata_file_id
  | Frame_count_mismatch
  | Frame_dimensions_mismatch
  | Timestamp_count_mismatch
  | Incorrect_File_ID
  | Unexpected_end_of_file
  | Buffer_size_not_multiple
  | Cannot_reshape

datatype error =
    ValueError value_error
  | StructError
  | UnicodeEncodeError
  | UnicodeDecodeError

text \<open>Sequencing: the first exception ends the computation.\<close>

definition bind_err :: "error + 'a \<Rightarrow> ('a \<Rightarrow> error + 'b) \<Rightarrow> error + 'b" where
  "bind_err r f = (case r of Inl e \<Rightarrow> Inl e | Inr x \<Rightarrow> f x)"

definition py_str_of :: "string \<Rightarrow> py_str" where
  "py_str_of s = map of_char s"

definition bytes_of :: "string \<Rightarrow> byte list" where
  "bytes_of s = map of_char s"

subsection \<open>Little-endian unsigned integers (\<open>struct\<close> formats \<open>I\<close> and \<open>Q\<close>)\<close>

fun le_bytes :: "nat \<Rightarrow> nat \<Rightarrow> byte list" where
  "le_bytes 0 x = []"
| "le_bytes (Suc n) x = of_nat (x mod 256) # le_bytes n (x div 256)"

fun from_le :: "byte list \<Rightarrow> nat" where
  "from_le [] = 0"
| "from_le (b # bs) = unat b + 256 * from_le bs"

text \<open>\<open>struct.pack\<close> of one unsigned integer of \<open>n\<close> bytes: out of range raises.\<close>

definition pack_uint :: "nat \<Rightarrow> int \<Rightarrow> error + byte list" where
  "pack_uint n x =
     (if 0 \<le> x \<and> x < 2 ^ (8 * n) then Inr (le_bytes n (nat x)) else Inl StructError)"

text \<open>
  \<open>struct.pack\<close> of a bytes value under the format \<open>Ns\<close>: a longer value is cut to its
  first \<open>N\<close> bytes, a shorter one is padded with null bytes; it never raises.
\<close>

definition pack_s :: "nat \<Rightarrow> byte list \<Rightarrow> byte list" where
  "pack_s n bs = take n bs @ replicate (n - length bs) 0"

subsection \<open>The UTF-8 codec (\<open>str.encode("utf-8")\<close>, \<open>bytes.decode("utf-8")\<close>)\<close>

definition utf8_encode_char :: "nat \<Rightarrow> byte list option" where
  "utf8_encode_char c =
     (if c < 0x80 then Some [of_nat c]
      else if c < 0x800 then Some [of_nat (0xC0 + c div 64), of_nat (0x80 + c mod 64)]
      else if 0xD800 \<le> c \<and> c < 0xE000 then None
      else if c < 0x10000 then
        Some [of_nat (0xE0 + c div 4096), of_nat (0x80 + c div 64 mod 64),
              of_nat (0x80 + c mod 64)]
      else if c < 0x110000 then
        Some [of_nat (0xF0 + c div 262144), of_nat (0x80 + c div 4096 mod 64),
              of_nat (0x80 + c div 64 mod 64), of_nat (0x80 + c mod 64)]
      else None)"

fun utf8_encode :: "py_str \<Rightarrow> error + byte list" where
  "utf8_encode [] = Inr []"
| "utf8_encode (c # cs) =
     (case utf8_encode_char c of
        None \<Rightarrow> Inl UnicodeEncodeError
      | Some bs \<Rightarrow> (case utf8_encode cs of Inl e \<Rightarrow> Inl e | Inr rest \<Rightarrow> Inr (bs @ rest)))"

definition is_cont :: "byte \<Rightarrow> bool" where
  "is_cont b = (0x80 \<le> unat b \<and> unat b < 0xC0)"

text \<open>
  One step of the strict decoder: the code point at the head of the bytes and the
  number of bytes it takes; \<open>None\<close> on an invalid start byte, a missing or invalid
  continuation byte, an overlong form, a surrogate or a value above U+10FFFF.
\<close>

definition utf8_decode_char :: "byte list \<Rightarrow> (nat \<times> nat) option" where
  "utf8_decode_char bs =
     (case bs of
        [] \<Rightarrow> None
      | b0 # r0 \<Rightarrow>
          (let n0 = unat b0 in
           if n0 < 0x80 then Some (n0, 1)
           else if n0 < 0xC0 then None
           else if n0 < 0xE0 then
             (case r0 of
                b1 # _ \<Rightarrow>
                  (let c = (n0 - 0xC0) * 64 + (unat b1 - 0x80) in
                   if is_cont b1 \<and> 0x80 \<le> c then Some (c, 2) else None)
              | _ \<Rightarrow> None)
           else if n0 < 0xF0 then
             (case r0 of
                b1 # b2 # _ \<Rightarrow>
                  (let c = (n0 - 0xE0) * 4096 + (unat b1 - 0x80) * 64 + (unat b2 - 0x80) in
                   if is_cont b1 \<and> is_cont b2 \<and> 0x800 \<le> c \<and> \<not> (0xD800 \<le> c \<and> c < 0xE000)
                   then Some (c, 3) else None)
              | _ \<Rightarrow> None)
           else if n0 < 0xF8 then
             (case r0 of
                b1 # b2 # b3 # _ \<Rightarrow>
                  (let c = (n0 - 0xF0) * 262144 + (unat b1 - 0x80) * 4096
                           + (unat b2 - 0x80) * 64 + (unat b3 - 0x80) in
                   if is_cont b1 \<and> is_cont b2 \<and> is_cont b3 \<and> 0x10000 \<le> c \<and> c < 0x110000
                   then Some (c, 4) else None)
              | _ \<Rightarrow> None)
           else None))"

function utf8_decode :: "byte list \<Rightarrow> error + py_str" where
  "utf8_decode bs =
     (if bs = [] then Inr []
      else (case utf8_decode_char bs of
              None \<Rightarrow> Inl UnicodeDecodeError
            | Some (c, k) \<Rightarrow>
                (case utf8_decode (drop k bs) of Inl e \<Rightarrow> Inl e | Inr cs \<Rightarrow> Inr (c # cs))))"
  by pat_completeness auto
termination
  by (relation "measure length")
     (auto simp: utf8_decode_char_def Let_def split: list.splits if_splits)

declare utf8_decode.simps [simp del]

subsection \<open>\<open>str.rstrip("\x00")\<close> and \<open>str.strip()\<close>\<close>

text \<open>The code points for which \<open>str.isspace\<close> holds; \<open>strip()\<close> removes them at both ends.\<close>

definition py_isspace :: "nat \<Rightarrow> bool" where
  "py_isspace c =
     ((0x09 \<le> c \<and> c \<le> 0x0D) \<or> (0x1C \<le> c \<and> c \<le> 0x20) \<or> c = 0x85 \<or> c = 0xA0
      \<or> c = 0x1680 \<or> (0x2000 \<le> c \<and> c \<le> 0x200A) \<or> c = 0x2028 \<or> c = 0x2029
      \<or> c = 0x202F \<or> c = 0x205F \<or> c = 0x3000)"

definition py_rstrip_nul :: "py_str \<Rightarrow> py_str" where
  "py_rstrip_nul s = rev (dropWhile (\<lambda>c. c = 0) (rev s))"

definition py_strip :: "py_str \<Rightarrow> py_str" where
  "py_strip s = dropWhile py_isspace (rev (dropWhile py_isspace (rev s)))"

subsection \<open>\<open>numpy\<close> arrays of unsigned integers\<close>

datatype np_dtype = UInt8 | UInt16 | UInt32 | UInt64

fun itemsize :: "np_dtype \<Rightarrow> nat" where
  "itemsize UInt8 = 1"
| "itemsize UInt16 = 2"
| "itemsize UInt32 = 4"
| "itemsize UInt64 = 8"

text \<open>
  An array has an element type, a shape and its elements in row-major order. In a
  well-formed array the number of elements is the product of the shape and every
  element fits the element type.
\<close>

record ndarray =
  dtype :: np_dtype
  shape :: "nat list"
  data :: "nat list"

definition ndarray_ok :: "ndarray \<Rightarrow> bool" where
  "ndarray_ok a =
     (length (data a) = prod_list (shape a) \<and> list_all (\<lambda>v. v < 2 ^ (8 * itemsize (dtype a))) (data a))"

text \<open>\<open>a.astype(t)\<close> between unsigned integer types keeps the low bytes of every element.\<close>

definition astype :: "ndarray \<Rightarrow> np_dtype \<Rightarrow> ndarray" where
  "astype a t = a\<lparr>dtype := t, data := map (\<lambda>v. v mod 2 ^ (8 * itemsize t)) (data a)\<rparr>"

text \<open>\<open>a.tobytes()\<close>: the elements in row-major order, each in the machine's (little-endian) byte order.\<close>

definition tobytes :: "ndarray \<Rightarrow> byte list" where
  "tobytes a = concat (map (le_bytes (itemsize (dtype a))) (data a))"

function chunks :: "nat \<Rightarrow> 'a list \<Rightarrow> 'a list list" where
  "chunks n xs = (if n = 0 \<or> xs = [] then [] else take n xs # chunks n (drop n xs))"
  by pat_completeness auto
termination
  by (relation "measure (\<lambda>(n, xs). length xs)") auto

declare chunks.simps [simp del]

text \<open>\<open>np.frombuffer(buf, dtype=t)\<close>: a one-dimensional array; the buffer must hold whole elements.\<close>

definition frombuffer :: "byte list \<Rightarrow> np_dtype \<Rightarrow> error + ndarray" where
  "frombuffer buf t =
     (if length buf mod itemsize t \<noteq> 0 then Inl (ValueError Buffer_size_not_multiple)
      else Inr \<lparr>dtype = t, shape = [length buf div itemsize t],
                data = map from_le (chunks (itemsize t) buf)\<rparr>)"

text \<open>\<open>a.reshape(newshape)\<close>: the number of elements must not change.\<close>

definition reshape :: "ndarray \<Rightarrow> nat list \<Rightarrow> error + ndarray" where
  "reshape a newshape =
     (if prod_list newshape \<noteq> length (data a) then Inl (ValueError Cannot_reshape)
      else Inr (a\<lparr>shape := newshape\<rparr>))"

section \<open>The SER codec of \<open>serPy.py\<close>\<close>

text \<open>
  The metadata dictionary, with the keys \<open>write_ser\<close> reads and \<open>read_ser\<close> builds.
  The integers are Python integers; \<open>little_endian\<close> is a boolean.
\<close>

record metadata =
  file_id :: py_str
  lu_id :: int
  color_id :: int
  little_endian :: bool
  image_width :: int
  image_height :: int
  pixel_depth :: int
  frame_count :: int
  observer :: py_str
  instrument :: py_str
  telescope :: py_str
  date_time :: int
  date_time_utc :: int

definition LUCAM_RECORDER :: string where
  "LUCAM_RECORDER = ''LUCAM-RECORDER''"

text \<open>\<open>struct.calcsize("<14sIIIIIII40s40s40s8s8s")\<close>\<close>

definition header_size :: nat where
  "header_size = 14 + 7 * 4 + 3 * 40 + 2 * 8"

text \<open>
  The \<open>struct.pack\<close> call of \<open>write_ser\<close>. Its arguments are evaluated first, left to
  right (the three \<open>encode\<close> calls, then the two inner \<open>struct.pack("<Q", ...)\<close>);
  after that the outer call packs the seven \<open>I\<close> fields.
\<close>

definition pack_header :: "metadata \<Rightarrow> error + byte list" where
  "pack_header md =
     bind_err (utf8_encode (file_id md)) (\<lambda>fid.
     bind_err (utf8_encode (observer md)) (\<lambda>obs.
     bind_err (utf8_encode (instrument md)) (\<lambda>ins.
     bind_err (utf8_encode (telescope md)) (\<lambda>tel.
     bind_err (pack_uint 8 (date_time md)) (\<lambda>dt.
     bind_err (pack_uint 8 (date_time_utc md)) (\<lambda>dtu.
     bind_err (pack_uint 4 (lu_id md)) (\<lambda>b_lu.
     bind_err (pack_uint 4 (color_id md)) (\<lambda>b_color.
     bind_err (pack_uint 4 (if little_endian md then 1 else 0)) (\<lambda>b_le.
     bind_err (pack_uint 4 (image_width md)) (\<lambda>b_w.
     bind_err (pack_uint 4 (image_height md)) (\<lambda>b_h.
     bind_err (pack_uint 4 (pixel_depth md)) (\<lambda>b_pd.
     bind_err (pack_uint 4 (frame_count md)) (\<lambda>b_fc.
       Inr (pack_s 14 fid @ b_lu @ b_color @ b_le @ b_w @ b_h @ b_pd @ b_fc
            @ pack_s 40 obs @ pack_s 40 ins @ pack_s 40 tel
            @ pack_s 8 dt @ pack_s 8 dtu))))))))))))))"

text \<open>
  The state of the destination: \<open>None\<close> while \<open>open(output_path, "wb")\<close> has not run
  (the path is untouched), \<open>Some bs\<close> once it has: the file exists and holds the bytes
  written so far. The \<open>with\<close> block closes the file on every exit, so what was written
  before an exception stays in the file.
\<close>

type_synonym destination = "byte list option"

text \<open>The loop over the frames: each frame is checked, then written.\<close>

fun write_frames :: "int \<Rightarrow> int \<Rightarrow> np_dtype \<Rightarrow> ndarray list \<Rightarrow> byte list \<Rightarrow> (error + unit) \<times> byte list" where
  "write_frames frame_height frame_width dt [] out = (Inr (), out)"
| "write_frames frame_height frame_width dt (frame # frames) out =
     (if map int (shape frame) \<noteq> [frame_height, frame_width]
      then (Inl (ValueError Frame_dimensions_mismatch), out)
      else write_frames frame_height frame_width dt frames (out @ tobytes (astype frame dt)))"

text \<open>The loop over the timestamps: each is packed as \<open><Q\<close> and written.\<close>

fun write_timestamps :: "int list \<Rightarrow> byte list \<Rightarrow> (error + unit) \<times> byte list" where
  "write_timestamps [] out = (Inr (), out)"
| "write_timestamps (timestamp # timestamps) out =
     (case pack_uint 8 timestamp of
        Inl e \<Rightarrow> (Inl e, out)
      | Inr bs \<Rightarrow> write_timestamps timestamps (out @ bs))"

text \<open>
  \<open>write_ser(output_path, metadata, frames, timestamps=None)\<close>: the result (an exception
  or the normal return) and the state of the destination afterwards.
  \<open>if timestamps:\<close> is false for \<open>None\<close> and for the empty list.
\<close>

definition write_ser :: "metadata \<Rightarrow> ndarray list \<Rightarrow> int list option \<Rightarrow> (error + unit) \<times> destination" where
  "write_ser md frames timestamps =
     (if file_id md \<noteq> py_str_of LUCAM_RECORDER
      then (Inl (ValueError Invalid_metadata_file_id), None)
      else
        let frame_height = image_height md;
            frame_width = image_width md;
            depth = pixel_depth md;
            count = frame_count md
        in
        if int (length frames) \<noteq> count
        then (Inl (ValueError Frame_count_mismatch), None)
        else
          let dt = (if depth = 8 then UInt8 else UInt16) in
          (case pack_header md of
             Inl e \<Rightarrow> (Inl e, Some [])
           | Inr header \<Rightarrow>
               (case write_frames frame_height frame_width dt frames header of
                  (Inl e, out) \<Rightarrow> (Inl e, Some out)
                | (Inr u, out) \<Rightarrow>
                    (case timestamps of
                       None \<Rightarrow> (Inr (), Some out)
                     | Some [] \<Rightarrow> (Inr (), Some out)
                     | Some ts \<Rightarrow>
                         if int (length ts) \<noteq> count
                         then (Inl (ValueError Timestamp_count_mismatch), Some out)
                         else (case write_timestamps ts out of
                                 (r, out') \<Rightarrow> (r, Some out'))))))"

text \<open>\<open>ser_file.read(n)\<close>: up to \<open>n\<close> bytes, and the rest of the stream.\<close>

definition file_read :: "nat \<Rightarrow> byte list \<Rightarrow> byte list \<times> byte list" where
  "file_read n stream = (take n stream, drop n stream)"

text \<open>The fields of the header as \<open>struct.unpack\<close> returns them.\<close>

record raw_header =
  h_file_id :: "byte list"
  h_lu_id :: nat
  h_color_id :: nat
  h_little_endian :: nat
  h_image_width :: nat
  h_image_height :: nat
  h_pixel_depth :: nat
  h_frame_count :: nat
  h_observer :: "byte list"
  h_instrument :: "byte list"
  h_telescope :: "byte list"
  h_date_time :: "byte list"
  h_date_time_utc :: "byte list"

definition field :: "nat \<Rightarrow> nat \<Rightarrow> byte list \<Rightarrow> byte list" where
  "field off n bs = take n (drop off bs)"

text \<open>\<open>struct.unpack(header_format, header)\<close>: raises unless the buffer has the size of the format.\<close>

definition unpack_header :: "byte list \<Rightarrow> error + raw_header" where
  "unpack_header header =
     (if length header \<noteq> header_size then Inl StructError
      else Inr \<lparr>h_file_id = field 0 14 header,
                h_lu_id = from_le (field 14 4 header),
                h_color_id = from_le (field 18 4 header),
                h_little_endian = from_le (field 22 4 header),
                h_image_width = from_le (field 26 4 header),
                h_image_height = from_le (field 30 4 header),
                h_pixel_depth = from_le (field 34 4 header),
                h_frame_count = from_le (field 38 4 header),
                h_observer = field 42 40 header,
                h_instrument = field 82 40 header,
                h_telescope = field 122 40 header,
                h_date_time = field 162 8 header,
                h_date_time_utc = field 170 8 header\<rparr>)"

text \<open>The helper \<open>_decode_field\<close> of \<open>read_ser\<close>.\<close>

definition decode_field :: "byte list \<Rightarrow> error + py_str" where
  "decode_field v =
     bind_err (utf8_decode v) (\<lambda>s. Inr (py_strip (py_rstrip_nul s)))"

text \<open>The frame size computed by \<open>read_ser\<close>.\<close>

definition frame_size :: "nat \<Rightarrow> nat \<Rightarrow> nat \<Rightarrow> nat" where
  "frame_size width height depth = width * height * (depth div 8)"

text \<open>
  The loop \<open>for _ in range(frame_count)\<close> of \<open>read_ser\<close>: the frames read, in order,
  and the stream after them.
\<close>

fun read_frames :: "nat \<Rightarrow> nat \<Rightarrow> np_dtype \<Rightarrow> nat \<Rightarrow> nat \<Rightarrow> byte list \<Rightarrow> error + (ndarray list \<times> byte list)" where
  "read_frames 0 fsize dt height width stream = Inr ([], stream)"
| "read_frames (Suc k) fsize dt height width stream =
     (case file_read fsize stream of
        (frame_data, stream') \<Rightarrow>
          if frame_data = [] then Inl (ValueError Unexpected_end_of_file)
          else (case frombuffer frame_data dt of
                  Inl e \<Rightarrow> Inl e
                | Inr frame \<Rightarrow>
                    (case reshape frame [height, width] of
                       Inl e \<Rightarrow> Inl e
                     | Inr frame' \<Rightarrow>
                         (case read_frames k fsize dt height width stream' of
                            Inl e \<Rightarrow> Inl e
                          | Inr (frames, rest) \<Rightarrow> Inr (frame' # frames, rest)))))"

text \<open>The timestamps of \<open>read_ser\<close>, from the bytes that remain after the frames.\<close>

definition read_timestamps :: "nat \<Rightarrow> byte list \<Rightarrow> int list option" where
  "read_timestamps count remaining_data =
     (if 8 * count \<le> length remaining_data
      then Some (map (\<lambda>i. int (from_le (field (i * 8) 8 remaining_data))) [0..<count])
      else None)"

text \<open>\<open>read_ser(input_path)\<close> on a file holding the bytes \<open>input\<close>.\<close>

definition read_ser :: "byte list \<Rightarrow> error + (metadata \<times> ndarray list \<times> int list option)" where
  "read_ser input =
     (case file_read header_size input of
        (header, stream) \<Rightarrow>
     bind_err (unpack_header header) (\<lambda>h.
     if h_file_id h \<noteq> bytes_of LUCAM_RECORDER then Inl (ValueError Incorrect_File_ID)
     else
     bind_err (decode_field (h_file_id h)) (\<lambda>fid.
     bind_err (decode_field (h_observer h)) (\<lambda>obs.
     bind_err (decode_field (h_instrument h)) (\<lambda>ins.
     bind_err (decode_field (h_telescope h)) (\<lambda>tel.
       let md = \<lparr>file_id = fid,
                 lu_id = int (h_lu_id h),
                 color_id = int (h_color_id h),
                 little_endian = (h_little_endian h \<noteq> 0),
                 image_width = int (h_image_width h),
                 image_height = int (h_image_height h),
                 pixel_depth = int (h_pixel_depth h),
                 frame_count = int (h_frame_count h),
                 observer = obs,
                 instrument = ins,
                 telescope = tel,
                 date_time = int (from_le (h_date_time h)),
                 date_time_utc = int (from_le (h_date_time_utc h))\<rparr>;
           dt = (if h_pixel_depth h = 8 then UInt8 else UInt16);
           fsize = frame_size (h_image_width h) (h_image_height h) (h_pixel_depth h)
       in
       bind_err (read_frames (h_frame_count h) fsize dt (h_image_height h) (h_image_width h) stream)
         (\<lambda>(frames, remaining_data).
            Inr (md, frames, read_timestamps (h_frame_count h) remaining_data))))))))"

section \<open>Notions used in the statements\<close>

text \<open>The test \<open>frame.shape == (frame_height, frame_width)\<close> of \<open>write_ser\<close>.\<close>

definition shape_matches :: "int \<Rightarrow> int \<Rightarrow> ndarray \<Rightarrow> bool" where
  "shape_matches frame_height frame_width frame =
     (map int (shape frame) = [frame_height, frame_width])"

text \<open>The bytes \<open>write_ser\<close> writes for a sequence of frames, in order.\<close>

definition frames_bytes :: "np_dtype \<Rightarrow> ndarray list \<Rightarrow> byte list" where
  "frames_bytes dt frames = concat (map (\<lambda>frame. tobytes (astype frame dt)) frames)"

text \<open>The values \<open>struct.pack("<Q", ...)\<close> accepts, and the bytes of a sequence of them.\<close>

definition is_u64 :: "int \<Rightarrow> bool" where
  "is_u64 x = (0 \<le> x \<and> x < 2 ^ 64)"

definition is_u32 :: "int \<Rightarrow> bool" where
  "is_u32 x = (0 \<le> x \<and> x < 2 ^ 32)"

definition timestamps_bytes :: "int list \<Rightarrow> byte list" where
  "timestamps_bytes ts = concat (map (\<lambda>t. le_bytes 8 (nat t)) ts)"

text \<open>The element type both functions choose from the pixel depth.\<close>

definition dtype_of_depth :: "int \<Rightarrow> np_dtype" where
  "dtype_of_depth depth = (if depth = 8 then UInt8 else UInt16)"

text \<open>
  Metadata whose integers fit the fields of the header (\<open>I\<close>: 32 bits, \<open>Q\<close>: 64 bits),
  a text whose UTF-8 encoding fits the 40 bytes of its field, and a text that
  \<open>_decode_field\<close> leaves as it is: no trailing null, no white space at either end.
\<close>

definition fits_header :: "metadata \<Rightarrow> bool" where
  "fits_header md =
     (is_u32 (lu_id md) \<and> is_u32 (color_id md) \<and> is_u32 (image_width md)
      \<and> is_u32 (image_height md) \<and> is_u32 (pixel_depth md) \<and> is_u32 (frame_count md)
      \<and> is_u64 (date_time md) \<and> is_u64 (date_time_utc md))"

definition text_fits :: "py_str \<Rightarrow> bool" where
  "text_fits s = (case utf8_encode s of Inl e \<Rightarrow> False | Inr bs \<Rightarrow> length bs \<le> 40)"

definition trimmed :: "py_str \<Rightarrow> bool" where
  "trimmed s = (s = [] \<or> (last s \<noteq> 0 \<and> \<not> py_isspace (hd s) \<and> \<not> py_isspace (last s)))"

text \<open>What \<open>_decode_field\<close> makes of a text that was written into a field it fits.\<close>

definition trim :: "py_str \<Rightarrow> py_str" where
  "trim s = py_strip (py_rstrip_nul s)"

text \<open>The header \<open>write_ser\<close> packs for a metadata, when the packing succeeds.\<close>

definition header_bytes :: "metadata \<Rightarrow> byte list" where
  "header_bytes md = (case pack_header md of Inl e \<Rightarrow> [] | Inr hdr \<Rightarrow> hdr)"

text \<open>
  The metadata the round trip is claimed for: the file id, a pixel depth of 8 or 16 and
  positive dimensions.
\<close>

definition claimed_valid :: "metadata \<Rightarrow> bool" where
  "claimed_valid md =
     (file_id md = py_str_of LUCAM_RECORDER \<and> (pixel_depth md = 8 \<or> pixel_depth md = 16)
      \<and> 0 < image_width md \<and> 0 < image_height md)"

text \<open>
  Frames as many as the metadata counts, each a well-formed array of the shape
  \<open>(image_height, image_width)\<close>; and such frames whose samples moreover have the
  element type of the pixel depth.
\<close>

definition frames_shaped :: "metadata \<Rightarrow> ndarray list \<Rightarrow> bool" where
  "frames_shaped md frames =
     (int (length frames) = frame_count md
      \<and> list_all (\<lambda>f. shape_matches (image_height md) (image_width md) f
                      \<and> length (data f) = prod_list (shape f)) frames)"

definition frames_match :: "metadata \<Rightarrow> ndarray list \<Rightarrow> bool" where
  "frames_match md frames =
     (int (length frames) = frame_count md
      \<and> list_all (\<lambda>f. shape_matches (image_height md) (image_width md) f
                      \<and> dtype f = dtype_of_depth (pixel_depth md) \<and> ndarray_ok f) frames)"

text \<open>No timestamps, or one 64-bit timestamp for every frame.\<close>

definition timestamps_match :: "metadata \<Rightarrow> int list option \<Rightarrow> bool" where
  "timestamps_match md timestamps =
     (case timestamps of
        None \<Rightarrow> True
      | Some ts \<Rightarrow> int (length ts) = frame_count md \<and> list_all is_u64 ts)"

text \<open>Bytes that the strict UTF-8 decoder accepts.\<close>

definition decodable :: "byte list \<Rightarrow> bool" where
  "decodable v = (case utf8_decode v of Inl e \<Rightarrow> False | Inr s \<Rightarrow> True)"

section \<open>Concrete inputs\<close>

text \<open>The metadata of the repository's test, for one frame of one row and two columns.\<close>

definition md0 :: metadata where
  "md0 = \<lparr>file_id = py_str_of LUCAM_RECORDER, lu_id = 1, color_id = 0, little_endian = True,
           image_width = 2, image_height = 1, pixel_depth = 8, frame_count = 1,
           observer = py_str_of ''Tester'', instrument = py_str_of ''TestCam'',
           telescope = py_str_of ''TestScope'', date_time = 637738597820000000,
           date_time_utc = 637738597820000000\<rparr>"

text \<open>A frame for it: one row, two columns, 8-bit samples.\<close>

definition f0 :: ndarray where
  "f0 = \<lparr>dtype = UInt8, shape = [1, 2], data = [7, 200]\<rparr>"

text \<open>The same metadata with an observer that starts with a space.\<close>

definition md_padded :: metadata where
  "md_padded = md0\<lparr>observer := py_str_of '' x''\<rparr>"

text \<open>The same metadata for a file without frames.\<close>

definition md_empty :: metadata where
  "md_empty = md0\<lparr>frame_count := 0\<rparr>"

text \<open>A frame of another shape: two rows of two columns.\<close>

definition f_square :: ndarray where
  "f_square = \<lparr>dtype = UInt8, shape = [2, 2], data = [1, 2, 3, 4]\<rparr>"

text \<open>The same metadata with another file id.\<close>

definition md_other_id :: metadata where
  "md_other_id = md0\<lparr>file_id := py_str_of ''SER''\<rparr>"

text \<open>The same metadata with an observer of 44 characters.\<close>

definition long_observer :: string where
  "long_observer = ''Observatoire de Haute-Provence, France (OHP)''"

definition md_long :: metadata where
  "md_long = md0\<lparr>observer := py_str_of long_observer\<rparr>"

text \<open>The same metadata for 12-bit samples, and a frame of 16-bit samples for it.\<close>

definition md12 :: metadata where
  "md12 = md0\<lparr>pixel_depth := 12\<rparr>"

definition f12 :: ndarray where
  "f12 = \<lparr>dtype = UInt16, shape = [1, 2], data = [7, 4000]\<rparr>"

text \<open>The same metadata for one 24-bit sample per frame.\<close>

definition md24 :: metadata where
  "md24 = md0\<lparr>image_width := 1, pixel_depth := 24\<rparr>"

text \<open>
  A header of 178 bytes with the file id, one frame declared, and every other field zero:
  the width, the height and the pixel depth are 0.
\<close>

definition zero_size_header :: "byte list" where
  "zero_size_header = bytes_of LUCAM_RECORDER @ replicate 24 0 @ [1, 0, 0, 0] @ replicate 136 0"

section \<open>Basic facts\<close>

lemma bind_err_simps [simp]:
  "bind_err (Inl e) f = Inl e" "bind_err (Inr x) f = f x"
  by (simp_all add: bind_err_def)

lemma length_le_bytes [simp]: "length (le_bytes n x) = n"
  by (induction n arbitrary: x) simp_all

lemma unat_byte_of_mod [simp]: "unat (of_nat (x mod 256) :: byte) = x mod 256"
  by (simp add: unat_of_nat)

lemma from_le_le_bytes: "x < 256 ^ n \<Longrightarrow> from_le (le_bytes n x) = x"
proof (induction n arbitrary: x)
  case 0
  then show ?case by simp
next
  case (Suc n)
  have "x div 256 < 256 ^ n"
    using Suc.prems by (simp add: less_mult_imp_div_less mult.commute)
  then have "from_le (le_bytes n (x div 256)) = x div 256"
    by (rule Suc.IH)
  then show ?case by simp
qed

lemma from_le_bound: "from_le bs < 256 ^ length bs"
proof (induction bs)
  case Nil
  then show ?case by simp
next
  case (Cons b bs)
  have "unat b < 256" using unsigned_less [of b, where ?'a = nat] by simp
  moreover have "from_le bs + 1 \<le> 256 ^ length bs" using Cons by simp
  then have "256 * (from_le bs + 1) \<le> 256 * 256 ^ length bs" by simp
  ultimately show ?case by simp
qed

lemma le_bytes_from_le: "le_bytes (length bs) (from_le bs) = bs"
proof (induction bs)
  case Nil
  then show ?case by simp
next
  case (Cons b bs)
  have b: "unat b < 256" using unsigned_less [of b, where ?'a = nat] by simp
  then have "(unat b + 256 * from_le bs) mod 256 = unat b" by simp
  moreover have "(unat b + 256 * from_le bs) div 256 = from_le bs" using b by simp
  ultimately show ?case using Cons by simp
qed

lemma pack_uint_Inr: "0 \<le> x \<Longrightarrow> x < 2 ^ (8 * n) \<Longrightarrow> pack_uint n x = Inr (le_bytes n (nat x))"
  by (simp add: pack_uint_def)

lemma pack_uint_length: "pack_uint n x = Inr bs \<Longrightarrow> length bs = n"
  by (auto simp: pack_uint_def split: if_splits)

lemma pack_uint_from_le: "pack_uint n x = Inr bs \<Longrightarrow> int (from_le bs) = x"
proof -
  assume a: "pack_uint n x = Inr bs"
  then have x: "0 \<le> x" "x < 2 ^ (8 * n)" and bs: "bs = le_bytes n (nat x)"
    by (auto simp: pack_uint_def split: if_splits)
  have "nat x < 2 ^ (8 * n)" using x by (simp add: nat_less_iff)
  also have "(2::nat) ^ (8 * n) = 256 ^ n" by (simp add: power_mult)
  finally have "from_le (le_bytes n (nat x)) = nat x" by (rule from_le_le_bytes)
  then show ?thesis using x bs by simp
qed

lemma length_pack_s [simp]: "length (pack_s n bs) = n"
  by (simp add: pack_s_def)

lemma pack_s_short: "length bs \<le> n \<Longrightarrow> pack_s n bs = bs @ replicate (n - length bs) 0"
  by (simp add: pack_s_def)

lemma field_0 [simp]: "length a = n \<Longrightarrow> field 0 n (a @ r) = a"
  by (simp add: field_def)

lemma field_skip: "length a \<le> off \<Longrightarrow> field off n (a @ r) = field (off - length a) n r"
  by (simp add: field_def)

text \<open>The bytes of the header, when the packing succeeds.\<close>

lemma pack_header_InrD:
  assumes "pack_header md = Inr hdr"
  obtains fid obs ins tel dt dtu b_lu b_color b_le b_w b_h b_pd b_fc where
    "utf8_encode (file_id md) = Inr fid"
    "utf8_encode (observer md) = Inr obs"
    "utf8_encode (instrument md) = Inr ins"
    "utf8_encode (telescope md) = Inr tel"
    "pack_uint 8 (date_time md) = Inr dt"
    "pack_uint 8 (date_time_utc md) = Inr dtu"
    "pack_uint 4 (lu_id md) = Inr b_lu"
    "pack_uint 4 (color_id md) = Inr b_color"
    "pack_uint 4 (if little_endian md then 1 else 0) = Inr b_le"
    "pack_uint 4 (image_width md) = Inr b_w"
    "pack_uint 4 (image_height md) = Inr b_h"
    "pack_uint 4 (pixel_depth md) = Inr b_pd"
    "pack_uint 4 (frame_count md) = Inr b_fc"
    "hdr = pack_s 14 fid @ b_lu @ b_color @ b_le @ b_w @ b_h @ b_pd @ b_fc
            @ pack_s 40 obs @ pack_s 40 ins @ pack_s 40 tel @ pack_s 8 dt @ pack_s 8 dtu"
  using assms unfolding pack_header_def bind_err_def
  by (auto split: sum.splits)

lemma unpack_header_parts:
  assumes "length fid = 14" "length b_lu = 4" "length b_color = 4" "length b_le = 4"
    "length b_w = 4" "length b_h = 4" "length b_pd = 4" "length b_fc = 4"
    "length obs = 40" "length ins = 40" "length tel = 40" "length dt = 8" "length dtu = 8"
  shows "unpack_header (fid @ b_lu @ b_color @ b_le @ b_w @ b_h @ b_pd @ b_fc
                        @ obs @ ins @ tel @ dt @ dtu) =
         Inr \<lparr>h_file_id = fid, h_lu_id = from_le b_lu, h_color_id = from_le b_color,
              h_little_endian = from_le b_le, h_image_width = from_le b_w,
              h_image_height = from_le b_h, h_pixel_depth = from_le b_pd,
              h_frame_count = from_le b_fc, h_observer = obs, h_instrument = ins,
              h_telescope = tel, h_date_time = dt, h_date_time_utc = dtu\<rparr>"
  using assms by (simp add: unpack_header_def header_size_def field_def)

lemma length_pack_header: "pack_header md = Inr hdr \<Longrightarrow> length hdr = header_size"
  by (erule pack_header_InrD) (simp add: header_size_def pack_uint_length)

lemma unat_of_nat_byte: "x < 256 \<Longrightarrow> unat (of_nat x :: byte) = x"
  by (simp add: unat_of_nat)

lemma utf8_decode_char_1:
  "unat b0 < 0x80 \<Longrightarrow> utf8_decode_char (b0 # r) = Some (unat b0, 1)"
  by (simp add: utf8_decode_char_def)

lemma utf8_decode_char_2:
  "0xC0 \<le> unat b0 \<Longrightarrow> unat b0 < 0xE0 \<Longrightarrow> is_cont b1 \<Longrightarrow>
   0x80 \<le> (unat b0 - 0xC0) * 64 + (unat b1 - 0x80) \<Longrightarrow>
   utf8_decode_char (b0 # b1 # r) = Some ((unat b0 - 0xC0) * 64 + (unat b1 - 0x80), 2)"
  by (simp add: utf8_decode_char_def Let_def)

lemma utf8_decode_char_3:
  "0xE0 \<le> unat b0 \<Longrightarrow> unat b0 < 0xF0 \<Longrightarrow> is_cont b1 \<Longrightarrow> is_cont b2 \<Longrightarrow>
   c = (unat b0 - 0xE0) * 4096 + (unat b1 - 0x80) * 64 + (unat b2 - 0x80) \<Longrightarrow>
   0x800 \<le> c \<Longrightarrow> \<not> (0xD800 \<le> c \<and> c < 0xE000) \<Longrightarrow>
   utf8_decode_char (b0 # b1 # b2 # r) = Some (c, 3)"
  by (simp add: utf8_decode_char_def Let_def)

lemma utf8_decode_char_4:
  "0xF0 \<le> unat b0 \<Longrightarrow> unat b0 < 0xF8 \<Longrightarrow> is_cont b1 \<Longrightarrow> is_cont b2 \<Longrightarrow> is_cont b3 \<Longrightarrow>
   c = (unat b0 - 0xF0) * 262144 + (unat b1 - 0x80) * 4096 + (unat b2 - 0x80) * 64
       + (unat b3 - 0x80) \<Longrightarrow>
   0x10000 \<le> c \<Longrightarrow> c < 0x110000 \<Longrightarrow>
   utf8_decode_char (b0 # b1 # b2 # b3 # r) = Some (c, 4)"
  by (simp add: utf8_decode_char_def Let_def)

lemma split64: "(c::nat) div 64 * 64 + c mod 64 = c"
  by simp

lemma split4096: "(c::nat) div 4096 * 4096 + c div 64 mod 64 * 64 + c mod 64 = c"
proof -
  have "c div 64 = c div 4096 * 64 + c div 64 mod 64"
    by (simp add: div_mult2_eq [of c 64 64, simplified])
  then have "c div 64 * 64 = c div 4096 * 4096 + c div 64 mod 64 * 64" by simp
  moreover have "c = c div 64 * 64 + c mod 64" by simp
  ultimately show ?thesis by linarith
qed

lemma split262144:
  "(c::nat) div 262144 * 262144 + c div 4096 mod 64 * 4096 + c div 64 mod 64 * 64 + c mod 64 = c"
proof -
  have "c div 4096 = c div 262144 * 64 + c div 4096 mod 64"
    by (simp add: div_mult2_eq [of c 4096 64, simplified])
  then have "c div 4096 * 4096 = c div 262144 * 262144 + c div 4096 mod 64 * 4096" by simp
  then show ?thesis using split4096 [of c] by linarith
qed

lemma utf8_decode_char_encode:
  assumes "utf8_encode_char c = Some bs"
  shows "utf8_decode_char (bs @ rest) = Some (c, length bs)"
proof -
  consider (a) "c < 0x80"
    | (b) "0x80 \<le> c" "c < 0x800"
    | (c) "0x800 \<le> c" "c < 0x10000" "\<not> (0xD800 \<le> c \<and> c < 0xE000)"
    | (d) "0x10000 \<le> c" "c < 0x110000"
    using assms by (auto simp: utf8_encode_char_def split: if_splits)
  then show ?thesis
  proof cases
    case a
    define b0 :: byte where "b0 = of_nat c"
    have bs: "bs = [b0]" using assms a by (simp add: utf8_encode_char_def b0_def)
    have u0: "unat b0 = c" unfolding b0_def using a by (intro unat_of_nat_byte) simp
    show ?thesis using utf8_decode_char_1 [of b0 rest] a by (simp add: bs u0)
  next
    case b
    define b0 :: byte where "b0 = of_nat (0xC0 + c div 64)"
    define b1 :: byte where "b1 = of_nat (0x80 + c mod 64)"
    have bs: "bs = [b0, b1]"
      using assms b by (simp add: utf8_encode_char_def b0_def b1_def)
    have u0: "unat b0 = 0xC0 + c div 64"
      unfolding b0_def using b by (intro unat_of_nat_byte) arith
    have u1: "unat b1 = 0x80 + c mod 64"
      unfolding b1_def by (intro unat_of_nat_byte) arith
    have r0: "0xC0 \<le> unat b0" "unat b0 < 0xE0" using b unfolding u0 by arith+
    have c1: "is_cont b1" unfolding is_cont_def u1 by arith
    have v: "(unat b0 - 0xC0) * 64 + (unat b1 - 0x80) = c"
      unfolding u0 u1 using split64 [of c] by simp
    show ?thesis
      using utf8_decode_char_2 [OF r0 c1, of rest] b unfolding v by (simp add: bs)
  next
    case c
    define b0 :: byte where "b0 = of_nat (0xE0 + c div 4096)"
    define b1 :: byte where "b1 = of_nat (0x80 + c div 64 mod 64)"
    define b2 :: byte where "b2 = of_nat (0x80 + c mod 64)"
    have bs: "bs = [b0, b1, b2]"
      using assms c by (auto simp: utf8_encode_char_def b0_def b1_def b2_def)
    have u0: "unat b0 = 0xE0 + c div 4096"
      unfolding b0_def using c by (intro unat_of_nat_byte) arith
    have u1: "unat b1 = 0x80 + c div 64 mod 64"
      unfolding b1_def by (intro unat_of_nat_byte) arith
    have u2: "unat b2 = 0x80 + c mod 64"
      unfolding b2_def by (intro unat_of_nat_byte) arith
    have r0: "0xE0 \<le> unat b0" "unat b0 < 0xF0" using c unfolding u0 by arith+
    have c1: "is_cont b1" unfolding is_cont_def u1 by arith
    have c2: "is_cont b2" unfolding is_cont_def u2 by arith
    have v: "c = (unat b0 - 0xE0) * 4096 + (unat b1 - 0x80) * 64 + (unat b2 - 0x80)"
      unfolding u0 u1 u2 using split4096 [of c] by simp
    show ?thesis
      using utf8_decode_char_3 [OF r0 c1 c2 v c(1) c(3), of rest] by (simp add: bs)
  next
    case d
    define b0 :: byte where "b0 = of_nat (0xF0 + c div 262144)"
    define b1 :: byte where "b1 = of_nat (0x80 + c div 4096 mod 64)"
    define b2 :: byte where "b2 = of_nat (0x80 + c div 64 mod 64)"
    define b3 :: byte where "b3 = of_nat (0x80 + c mod 64)"
    have bs: "bs = [b0, b1, b2, b3]"
      using assms d by (auto simp: utf8_encode_char_def b0_def b1_def b2_def b3_def)
    have u0: "unat b0 = 0xF0 + c div 262144"
      unfolding b0_def using d by (intro unat_of_nat_byte) arith
    have u1: "unat b1 = 0x80 + c div 4096 mod 64"
      unfolding b1_def by (intro unat_of_nat_byte) arith
    have u2: "unat b2 = 0x80 + c div 64 mod 64"
      unfolding b2_def by (intro unat_of_nat_byte) arith
    have u3: "unat b3 = 0x80 + c mod 64"
      unfolding b3_def by (intro unat_of_nat_byte) arith
    have r0: "0xF0 \<le> unat b0" "unat b0 < 0xF8" using d unfolding u0 by arith+
    have c1: "is_cont b1" unfolding is_cont_def u1 by arith
    have c2: "is_cont b2" unfolding is_cont_def u2 by arith
    have c3: "is_cont b3" unfolding is_cont_def u3 by arith
    have v: "c = (unat b0 - 0xF0) * 262144 + (unat b1 - 0x80) * 4096 + (unat b2 - 0x80) * 64
               + (unat b3 - 0x80)"
      unfolding u0 u1 u2 u3 using split262144 [of c] by simp
    show ?thesis
      using utf8_decode_char_4 [OF r0 c1 c2 c3 v d, of rest] by (simp add: bs)
  qed
qed

lemma utf8_encode_char_nonempty: "utf8_encode_char c = Some bs \<Longrightarrow> bs \<noteq> []"
  by (auto simp: utf8_encode_char_def split: if_splits)

lemma utf8_decode_Nil [simp]: "utf8_decode [] = Inr []"
  by (simp add: utf8_decode.simps)

lemma utf8_decode_append_char:
  assumes "utf8_encode_char c = Some bs"
  shows "utf8_decode (bs @ rest) =
         (case utf8_decode rest of Inl e \<Rightarrow> Inl e | Inr cs \<Rightarrow> Inr (c # cs))"
proof -
  have ne: "bs \<noteq> []" using assms by (rule utf8_encode_char_nonempty)
  show ?thesis
    by (subst utf8_decode.simps) (simp add: ne utf8_decode_char_encode [OF assms])
qed

lemma utf8_decode_encode_append:
  "utf8_encode s = Inr bs \<Longrightarrow> utf8_decode rest = Inr t \<Longrightarrow>
   utf8_decode (bs @ rest) = Inr (s @ t)"
proof (induction s arbitrary: bs)
  case Nil
  then show ?case by simp
next
  case (Cons c s)
  from Cons.prems(1) obtain b bs' where
    b: "utf8_encode_char c = Some b" and bs': "utf8_encode s = Inr bs'" and bs: "bs = b @ bs'"
    by (auto split: option.splits sum.splits)
  have "utf8_decode (bs' @ rest) = Inr (s @ t)"
    using Cons.IH [OF bs' Cons.prems(2)] .
  then show ?case
    using utf8_decode_append_char [OF b, of "bs' @ rest"] by (simp add: bs)
qed

lemma utf8_decode_nuls: "utf8_decode (replicate k 0) = Inr (replicate k 0)"
proof (induction k)
  case 0
  then show ?case by simp
next
  case (Suc k)
  have "utf8_encode_char 0 = Some [0]" by (simp add: utf8_encode_char_def)
  from utf8_decode_append_char [OF this, of "replicate k 0"] Suc
  show ?case by simp
qed

lemma utf8_decode_padded:
  "utf8_encode s = Inr bs \<Longrightarrow> utf8_decode (bs @ replicate k 0) = Inr (s @ replicate k 0)"
  by (rule utf8_decode_encode_append [OF _ utf8_decode_nuls])

lemma dropWhile_replicate_append:
  "P x \<Longrightarrow> dropWhile P (replicate k x @ ys) = dropWhile P ys"
  by (induction k) simp_all

lemma py_rstrip_nul_padded [simp]: "py_rstrip_nul (s @ replicate k 0) = py_rstrip_nul s"
  by (simp add: py_rstrip_nul_def dropWhile_replicate_append)

lemma py_rstrip_nul_id: "s = [] \<or> last s \<noteq> 0 \<Longrightarrow> py_rstrip_nul s = s"
  by (cases s rule: rev_cases) (auto simp: py_rstrip_nul_def)

lemma dropWhile_hd_id: "xs \<noteq> [] \<Longrightarrow> \<not> P (hd xs) \<Longrightarrow> dropWhile P xs = xs"
  by (cases xs) simp_all

lemma py_strip_id:
  assumes "s = [] \<or> (\<not> py_isspace (hd s) \<and> \<not> py_isspace (last s))"
  shows "py_strip s = s"
proof (cases "s = []")
  case True
  then show ?thesis by (simp add: py_strip_def)
next
  case False
  then have h: "\<not> py_isspace (hd s)" and l: "\<not> py_isspace (last s)" using assms by auto
  have "dropWhile py_isspace (rev s) = rev s"
    using False l by (intro dropWhile_hd_id) (simp_all add: hd_rev)
  then show ?thesis using False h by (simp add: py_strip_def dropWhile_hd_id)
qed

lemma decode_field_pack_s:
  assumes "utf8_encode s = Inr bs" "length bs \<le> n"
  shows "decode_field (pack_s n bs) = Inr (py_strip (py_rstrip_nul s))"
  using assms by (simp add: decode_field_def pack_s_short utf8_decode_padded)

lemma itemsize_pos [simp]: "0 < itemsize t"
  by (cases t) simp_all

lemma chunks_Nil [simp]: "chunks n [] = []"
  by (simp add: chunks.simps)

lemma chunks_append:
  "0 < n \<Longrightarrow> length a = n \<Longrightarrow> chunks n (a @ rest) = a # chunks n rest"
  by (subst chunks.simps) auto

lemma chunks_concat_le_bytes:
  "0 < n \<Longrightarrow> chunks n (concat (map (le_bytes n) vs)) = map (le_bytes n) vs"
  by (induction vs) (simp_all add: chunks_append)

lemma length_concat_le_bytes [simp]:
  "length (concat (map (le_bytes n) vs)) = n * length vs"
  by (induction vs) simp_all

lemma length_tobytes: "length (tobytes a) = itemsize (dtype a) * length (data a)"
  by (simp add: tobytes_def)

lemma astype_simps [simp]:
  "dtype (astype a t) = t" "shape (astype a t) = shape a"
  "length (data (astype a t)) = length (data a)"
  by (simp_all add: astype_def)

lemma map_from_le_le_bytes:
  "list_all (\<lambda>v. v < 256 ^ n) vs \<Longrightarrow> map (from_le \<circ> le_bytes n) vs = vs"
  by (induction vs) (simp_all add: from_le_le_bytes)

lemma astype_values: "list_all (\<lambda>v. v < 256 ^ itemsize t) (data (astype a t))"
proof -
  have "(2::nat) ^ (8 * itemsize t) = 256 ^ itemsize t" by (simp add: power_mult)
  then show ?thesis by (simp add: astype_def list_all_iff)
qed

lemma frombuffer_tobytes_astype:
  "frombuffer (tobytes (astype a t)) t =
   Inr \<lparr>dtype = t, shape = [length (data a)], data = data (astype a t)\<rparr>"
  by (simp add: frombuffer_def tobytes_def chunks_concat_le_bytes
                map_from_le_le_bytes [OF astype_values])

lemma astype_id: "ndarray_ok a \<Longrightarrow> astype a (dtype a) = a"
proof -
  assume "ndarray_ok a"
  then have "list_all (\<lambda>v. v < 2 ^ (8 * itemsize (dtype a))) (data a)"
    by (simp add: ndarray_ok_def)
  then have "map (\<lambda>v. v mod 2 ^ (8 * itemsize (dtype a))) (data a) = data a"
    by (induction "data a" arbitrary: a) (auto simp: list_all_iff map_idI)
  then show ?thesis by (simp add: astype_def)
qed

lemma frames_bytes_simps [simp]:
  "frames_bytes dt [] = []"
  "frames_bytes dt (f # fs) = tobytes (astype f dt) @ frames_bytes dt fs"
  by (simp_all add: frames_bytes_def)

lemma timestamps_bytes_simps [simp]:
  "timestamps_bytes [] = []"
  "timestamps_bytes (t # ts) = le_bytes 8 (nat t) @ timestamps_bytes ts"
  by (simp_all add: timestamps_bytes_def)

lemma length_timestamps_bytes [simp]: "length (timestamps_bytes ts) = 8 * length ts"
  by (induction ts) simp_all

lemma write_frames_eq:
  "write_frames fh fw dt frames out =
     (if list_all (shape_matches fh fw) frames then Inr ()
      else Inl (ValueError Frame_dimensions_mismatch),
      out @ frames_bytes dt (takeWhile (shape_matches fh fw) frames))"
  by (induction frames arbitrary: out) (simp_all add: shape_matches_def)

lemma pack_uint_8: "pack_uint 8 t = (if is_u64 t then Inr (le_bytes 8 (nat t)) else Inl StructError)"
  by (simp add: pack_uint_def is_u64_def)

lemma pack_uint_4: "pack_uint 4 x = (if is_u32 x then Inr (le_bytes 4 (nat x)) else Inl StructError)"
  by (simp add: pack_uint_def is_u32_def)

lemma write_timestamps_eq:
  "write_timestamps ts out =
     (if list_all is_u64 ts then Inr () else Inl StructError,
      out @ timestamps_bytes (takeWhile is_u64 ts))"
  by (induction ts arbitrary: out) (simp_all add: pack_uint_8)

lemma file_read_append: "length a = n \<Longrightarrow> file_read n (a @ rest) = (a, rest)"
  by (simp add: file_read_def)

lemma read_frames_written:
  assumes "\<forall>f \<in> set frames. shape f = [h, w] \<and> length (data f) = h * w"
    and "0 < h * w" and "fsize = itemsize dt * (h * w)"
  shows "read_frames (length frames) fsize dt h w (frames_bytes dt frames @ rest) =
         Inr (map (\<lambda>f. astype f dt) frames, rest)"
  using assms(1)
proof (induction frames)
  case Nil
  then show ?case by simp
next
  case (Cons f frames)
  have f: "shape f = [h, w]" "length (data f) = h * w" using Cons.prems by auto
  have len: "length (tobytes (astype f dt)) = fsize"
    using f assms(3) by (simp add: length_tobytes)
  have ne: "tobytes (astype f dt) \<noteq> []"
    using len assms(2,3) by (auto simp del: length_0_conv simp add: length_0_conv [symmetric])
  have rd: "file_read fsize (tobytes (astype f dt) @ frames_bytes dt frames @ rest) =
            (tobytes (astype f dt), frames_bytes dt frames @ rest)"
    using len by (rule file_read_append)
  have fb: "frombuffer (tobytes (astype f dt)) dt =
            Inr \<lparr>dtype = dt, shape = [length (data f)], data = data (astype f dt)\<rparr>"
    by (rule frombuffer_tobytes_astype)
  have rs: "reshape \<lparr>dtype = dt, shape = [length (data f)], data = data (astype f dt)\<rparr> [h, w] =
            Inr (astype f dt)"
    using f by (simp add: reshape_def astype_def)
  have ih: "read_frames (length frames) fsize dt h w (frames_bytes dt frames @ rest) =
            Inr (map (\<lambda>f. astype f dt) frames, rest)"
    using Cons by simp
  show ?case by (simp add: rd ne fb rs ih)
qed

lemma field_timestamp:
  "i < length ts \<Longrightarrow>
   field (i * 8) 8 (timestamps_bytes ts @ rest) = le_bytes 8 (nat (ts ! i))"
proof (induction ts arbitrary: i)
  case Nil
  then show ?case by simp
next
  case (Cons t ts)
  show ?case
  proof (cases i)
    case 0
    then show ?thesis by (simp add: field_def)
  next
    case (Suc j)
    then have "j < length ts" using Cons.prems by simp
    from Cons.IH [OF this] show ?thesis using Suc by (simp add: field_def)
  qed
qed

lemma read_timestamps_written:
  assumes "list_all is_u64 ts"
  shows "read_timestamps (length ts) (timestamps_bytes ts @ rest) = Some ts"
proof -
  have "map (\<lambda>i. int (from_le (field (i * 8) 8 (timestamps_bytes ts @ rest)))) [0..<length ts] = ts"
  proof (rule nth_equalityI)
    show "length (map (\<lambda>i. int (from_le (field (i * 8) 8 (timestamps_bytes ts @ rest)))) [0..<length ts])
          = length ts" by simp
  next
    fix i assume "i < length (map (\<lambda>i. int (from_le (field (i * 8) 8 (timestamps_bytes ts @ rest)))) [0..<length ts])"
    then have i: "i < length ts" by simp
    then have u: "is_u64 (ts ! i)" using assms by (simp add: list_all_length)
    then have "pack_uint 8 (ts ! i) = Inr (le_bytes 8 (nat (ts ! i)))" by (simp add: pack_uint_8)
    then have "int (from_le (le_bytes 8 (nat (ts ! i)))) = ts ! i" by (rule pack_uint_from_le)
    then show "map (\<lambda>i. int (from_le (field (i * 8) 8 (timestamps_bytes ts @ rest)))) [0..<length ts] ! i
               = ts ! i"
      using i by (simp add: field_timestamp)
  qed
  then show ?thesis by (simp add: read_timestamps_def)
qed

lemma read_timestamps_none: "length rest < 8 * n \<Longrightarrow> read_timestamps n rest = None"
  by (simp add: read_timestamps_def)

lemma read_timestamps_zero: "read_timestamps 0 rest = Some []"
  by (simp add: read_timestamps_def)

lemma utf8_encode_LUCAM: "utf8_encode (py_str_of LUCAM_RECORDER) = Inr (bytes_of LUCAM_RECORDER)"
  by (simp add: py_str_of_def bytes_of_def LUCAM_RECORDER_def utf8_encode_char_def)

lemma length_LUCAM: "length (bytes_of LUCAM_RECORDER) = 14"
  by (simp add: bytes_of_def LUCAM_RECORDER_def)

lemma trimmed_LUCAM: "trimmed (py_str_of LUCAM_RECORDER)"
  by (simp add: trimmed_def py_str_of_def LUCAM_RECORDER_def py_isspace_def)

lemma trim_trimmed: "trimmed s \<Longrightarrow> trim s = s"
  unfolding trimmed_def trim_def
  by (auto simp: py_rstrip_nul_id py_strip_id)

lemma text_fitsD: "text_fits s \<Longrightarrow> utf8_encode s = Inr bs \<Longrightarrow> length bs \<le> 40"
  by (simp add: text_fits_def)

lemma pack_uint_nat: "pack_uint n x = Inr bs \<Longrightarrow> from_le bs = nat x"
  using pack_uint_from_le [of n x bs] by simp

text \<open>Reading back a header that \<open>write_ser\<close> packed.\<close>

lemma read_ser_packed_header:
  assumes hdr: "pack_header md = Inr hdr"
    and fid: "file_id md = py_str_of LUCAM_RECORDER"
    and tf: "text_fits (observer md)" "text_fits (instrument md)" "text_fits (telescope md)"
  shows "read_ser (hdr @ body) =
         bind_err (read_frames (nat (frame_count md))
                     (frame_size (nat (image_width md)) (nat (image_height md)) (nat (pixel_depth md)))
                     (dtype_of_depth (pixel_depth md))
                     (nat (image_height md)) (nat (image_width md)) body)
           (\<lambda>(frames, remaining_data).
              Inr (md\<lparr>observer := trim (observer md), instrument := trim (instrument md),
                      telescope := trim (telescope md)\<rparr>,
                   frames, read_timestamps (nat (frame_count md)) remaining_data))"
proof -
  from hdr obtain fi obs ins tel dt dtu b_lu b_color b_le b_w b_h b_pd b_fc where
    e: "utf8_encode (file_id md) = Inr fi"
       "utf8_encode (observer md) = Inr obs"
       "utf8_encode (instrument md) = Inr ins"
       "utf8_encode (telescope md) = Inr tel"
    and p: "pack_uint 8 (date_time md) = Inr dt"
       "pack_uint 8 (date_time_utc md) = Inr dtu"
       "pack_uint 4 (lu_id md) = Inr b_lu"
       "pack_uint 4 (color_id md) = Inr b_color"
       "pack_uint 4 (if little_endian md then 1 else 0) = Inr b_le"
       "pack_uint 4 (image_width md) = Inr b_w"
       "pack_uint 4 (image_height md) = Inr b_h"
       "pack_uint 4 (pixel_depth md) = Inr b_pd"
       "pack_uint 4 (frame_count md) = Inr b_fc"
    and h: "hdr = pack_s 14 fi @ b_lu @ b_color @ b_le @ b_w @ b_h @ b_pd @ b_fc
            @ pack_s 40 obs @ pack_s 40 ins @ pack_s 40 tel @ pack_s 8 dt @ pack_s 8 dtu"
    by (rule pack_header_InrD)
  have fi: "fi = bytes_of LUCAM_RECORDER" using e(1) fid utf8_encode_LUCAM by simp
  have pfi: "pack_s 14 fi = bytes_of LUCAM_RECORDER"
    by (simp add: fi pack_s_def length_LUCAM)
  have l8: "length dt = 8" "length dtu = 8" using p(1,2) by (auto dest: pack_uint_length)
  have pdt: "pack_s 8 dt = dt" "pack_s 8 dtu = dtu" using l8 by (simp_all add: pack_s_def)
  have l4: "length b_lu = 4" "length b_color = 4" "length b_le = 4" "length b_w = 4"
    "length b_h = 4" "length b_pd = 4" "length b_fc = 4"
    using p(3-9) by (auto dest: pack_uint_length)
  have up: "unpack_header hdr =
         Inr \<lparr>h_file_id = bytes_of LUCAM_RECORDER, h_lu_id = from_le b_lu,
              h_color_id = from_le b_color, h_little_endian = from_le b_le,
              h_image_width = from_le b_w, h_image_height = from_le b_h,
              h_pixel_depth = from_le b_pd, h_frame_count = from_le b_fc,
              h_observer = pack_s 40 obs, h_instrument = pack_s 40 ins,
              h_telescope = pack_s 40 tel, h_date_time = dt, h_date_time_utc = dtu\<rparr>"
    unfolding h pfi pdt
    by (rule unpack_header_parts) (simp_all add: l4 l8 length_LUCAM)
  have len: "length hdr = header_size" using hdr by (rule length_pack_header)
  have rd: "file_read header_size (hdr @ body) = (hdr, body)"
    using len by (rule file_read_append)
  have d0: "decode_field (bytes_of LUCAM_RECORDER) = Inr (file_id md)"
    using decode_field_pack_s [OF utf8_encode_LUCAM, of 14] trim_trimmed [OF trimmed_LUCAM]
    by (simp add: pack_s_def length_LUCAM fid trim_def)
  have d1: "decode_field (pack_s 40 obs) = Inr (trim (observer md))"
    unfolding trim_def using e(2) tf(1) by (intro decode_field_pack_s) (simp_all add: text_fits_def)
  have d2: "decode_field (pack_s 40 ins) = Inr (trim (instrument md))"
    unfolding trim_def using e(3) tf(2) by (intro decode_field_pack_s) (simp_all add: text_fits_def)
  have d3: "decode_field (pack_s 40 tel) = Inr (trim (telescope md))"
    unfolding trim_def using e(4) tf(3) by (intro decode_field_pack_s) (simp_all add: text_fits_def)
  have n: "int (from_le dt) = date_time md" "int (from_le dtu) = date_time_utc md"
    "int (from_le b_lu) = lu_id md" "int (from_le b_color) = color_id md"
    "int (from_le b_w) = image_width md" "int (from_le b_h) = image_height md"
    "int (from_le b_pd) = pixel_depth md" "int (from_le b_fc) = frame_count md"
    using p by (auto dest: pack_uint_from_le)
  have m: "from_le b_w = nat (image_width md)" "from_le b_h = nat (image_height md)"
    "from_le b_pd = nat (pixel_depth md)" "from_le b_fc = nat (frame_count md)"
    using p by (auto dest: pack_uint_nat)
  have le: "(from_le b_le \<noteq> 0) = little_endian md" "(0 < from_le b_le) = little_endian md"
    using pack_uint_from_le [OF p(5)] by (auto split: if_splits)
  have dt_eq: "(if from_le b_pd = 8 then UInt8 else UInt16) = dtype_of_depth (pixel_depth md)"
    using n(7) by (auto simp: dtype_of_depth_def)
  have mdeq: "\<lparr>file_id = file_id md, lu_id = lu_id md, color_id = color_id md,
               little_endian = little_endian md, image_width = image_width md,
               image_height = image_height md, pixel_depth = pixel_depth md,
               frame_count = frame_count md, observer = trim (observer md),
               instrument = trim (instrument md), telescope = trim (telescope md),
               date_time = date_time md, date_time_utc = date_time_utc md\<rparr>
             = md\<lparr>observer := trim (observer md), instrument := trim (instrument md),
                   telescope := trim (telescope md)\<rparr>"
    by simp
  show ?thesis
    unfolding read_ser_def rd prod.case up bind_err_simps
    by (simp add: d0 d1 d2 d3 n le dt_eq Let_def mdeq) (simp add: m)
qed

text \<open>What \<open>write_ser\<close> returns and leaves in the destination, case by case.\<close>

lemma write_ser_eq:
  "write_ser md frames timestamps =
     (if file_id md \<noteq> py_str_of LUCAM_RECORDER
      then (Inl (ValueError Invalid_metadata_file_id), None)
      else if int (length frames) \<noteq> frame_count md
      then (Inl (ValueError Frame_count_mismatch), None)
      else (case pack_header md of
              Inl e \<Rightarrow> (Inl e, Some [])
            | Inr hdr \<Rightarrow>
                if \<not> list_all (shape_matches (image_height md) (image_width md)) frames
                then (Inl (ValueError Frame_dimensions_mismatch),
                      Some (hdr @ frames_bytes (dtype_of_depth (pixel_depth md))
                              (takeWhile (shape_matches (image_height md) (image_width md)) frames)))
                else (case timestamps of
                        None \<Rightarrow>
                          (Inr (), Some (hdr @ frames_bytes (dtype_of_depth (pixel_depth md)) frames))
                      | Some ts \<Rightarrow>
                          if ts = []
                          then (Inr (), Some (hdr @ frames_bytes (dtype_of_depth (pixel_depth md)) frames))
                          else if int (length ts) \<noteq> frame_count md
                          then (Inl (ValueError Timestamp_count_mismatch),
                                Some (hdr @ frames_bytes (dtype_of_depth (pixel_depth md)) frames))
                          else (if list_all is_u64 ts then Inr () else Inl StructError,
                                Some (hdr @ frames_bytes (dtype_of_depth (pixel_depth md)) frames
                                      @ timestamps_bytes (takeWhile is_u64 ts))))))"
proof -
  have tw: "list_all P xs \<Longrightarrow> takeWhile P xs = xs" for P and xs :: "'a list"
    by (simp add: list_all_iff)
  show ?thesis
    by (simp add: write_ser_def Let_def write_frames_eq write_timestamps_eq
                  dtype_of_depth_def tw
             split: sum.splits option.splits list.splits)
qed

lemma text_fits_encodes: "text_fits s \<Longrightarrow> \<exists>bs. utf8_encode s = Inr bs \<and> length bs \<le> 40"
  by (auto simp: text_fits_def split: sum.splits)

lemma pack_header_ok:
  assumes "fits_header md" "file_id md = py_str_of LUCAM_RECORDER"
    "text_fits (observer md)" "text_fits (instrument md)" "text_fits (telescope md)"
  shows "pack_header md = Inr (header_bytes md)"
proof -
  obtain obs ins tel where
    "utf8_encode (observer md) = Inr obs" "utf8_encode (instrument md) = Inr ins"
    "utf8_encode (telescope md) = Inr tel"
    using assms(3-5) by (auto dest!: text_fits_encodes)
  moreover have "is_u32 (if little_endian md then 1 else 0)" by (simp add: is_u32_def)
  ultimately have "\<exists>hdr. pack_header md = Inr hdr"
    using assms(1,2) utf8_encode_LUCAM
    by (simp add: pack_header_def fits_header_def pack_uint_4 pack_uint_8)
  then show ?thesis by (auto simp: header_bytes_def)
qed

lemma shape_matches_nat:
  "shape_matches fh fw f \<Longrightarrow> shape f = [nat fh, nat fw]"
  by (cases "shape f") (auto simp: shape_matches_def)

lemma frame_size_depth:
  "depth = 8 \<or> depth = 16 \<Longrightarrow>
   frame_size w h (nat depth) = itemsize (dtype_of_depth depth) * (h * w)"
  by (auto simp: frame_size_def dtype_of_depth_def)

text \<open>
  Writing metadata that fits the header and frames of the declared shape succeeds, and
  fixes the bytes of the file.
\<close>

lemma write_ser_ok:
  assumes "fits_header md" "file_id md = py_str_of LUCAM_RECORDER"
    "text_fits (observer md)" "text_fits (instrument md)" "text_fits (telescope md)"
    "frames_shaped md frames" "timestamps_match md timestamps"
  shows "write_ser md frames timestamps =
         (Inr (), Some (header_bytes md @ frames_bytes (dtype_of_depth (pixel_depth md)) frames
                        @ timestamps_bytes (case timestamps of None \<Rightarrow> [] | Some ts \<Rightarrow> ts)))"
proof -
  have hdr: "pack_header md = Inr (header_bytes md)"
    using assms(1-5) by (rule pack_header_ok)
  have len: "int (length frames) = frame_count md"
    and sh: "list_all (shape_matches (image_height md) (image_width md)) frames"
    using assms(6) by (auto simp: frames_shaped_def list_all_iff)
  have tw: "list_all is_u64 ts \<Longrightarrow> takeWhile is_u64 ts = ts" for ts
    by (simp add: list_all_iff)
  show ?thesis
    using assms(7)
    by (auto simp: write_ser_eq assms(2) len hdr sh timestamps_match_def tw split: option.splits)
qed

text \<open>Reading such a file back.\<close>

lemma read_written:
  assumes "fits_header md" "claimed_valid md"
    "text_fits (observer md)" "text_fits (instrument md)" "text_fits (telescope md)"
    "frames_shaped md frames" "timestamps_match md timestamps"
  shows "read_ser (header_bytes md @ frames_bytes (dtype_of_depth (pixel_depth md)) frames
                   @ timestamps_bytes (case timestamps of None \<Rightarrow> [] | Some ts \<Rightarrow> ts)) =
         Inr (md\<lparr>observer := trim (observer md), instrument := trim (instrument md),
                 telescope := trim (telescope md)\<rparr>,
              map (\<lambda>f. astype f (dtype_of_depth (pixel_depth md))) frames,
              if frame_count md = 0 then Some [] else timestamps)"
proof -
  let ?dt = "dtype_of_depth (pixel_depth md)"
  let ?h = "nat (image_height md)" and ?w = "nat (image_width md)"
  let ?tb = "timestamps_bytes (case timestamps of None \<Rightarrow> [] | Some ts \<Rightarrow> ts)"
  have fid: "file_id md = py_str_of LUCAM_RECORDER"
    and pd: "pixel_depth md = 8 \<or> pixel_depth md = 16"
    and pos: "0 < image_width md" "0 < image_height md"
    using assms(2) by (auto simp: claimed_valid_def)
  have hdr: "pack_header md = Inr (header_bytes md)"
    using assms(1) fid assms(3-5) by (rule pack_header_ok)
  have len: "length frames = nat (frame_count md)"
    using assms(6) by (auto simp: frames_shaped_def)
  have fr: "\<forall>f \<in> set frames. shape f = [?h, ?w] \<and> length (data f) = ?h * ?w"
    using assms(6) by (auto simp: frames_shaped_def list_all_iff dest!: shape_matches_nat)
  have hw: "0 < ?h * ?w" using pos by simp
  have fs: "frame_size ?w ?h (nat (pixel_depth md)) = itemsize ?dt * (?h * ?w)"
    using pd by (rule frame_size_depth)
  have rf: "read_frames (nat (frame_count md)) (frame_size ?w ?h (nat (pixel_depth md))) ?dt ?h ?w
              (frames_bytes ?dt frames @ ?tb) = Inr (map (\<lambda>f. astype f ?dt) frames, ?tb)"
    using read_frames_written [OF fr hw fs, of ?tb] by (simp add: len)
  have ts: "read_timestamps (nat (frame_count md)) ?tb =
            (if frame_count md = 0 then Some [] else timestamps)"
  proof (cases timestamps)
    case None
    have "0 \<le> frame_count md" using assms(6) by (auto simp: frames_shaped_def)
    then show ?thesis using None by (auto simp: read_timestamps_def)
  next
    case (Some l)
    then have l: "int (length l) = frame_count md" "list_all is_u64 l"
      using assms(7) by (simp_all add: timestamps_match_def)
    have "read_timestamps (length l) (timestamps_bytes l @ []) = Some l"
      using l(2) by (rule read_timestamps_written)
    moreover have "nat (frame_count md) = length l" using l(1) by simp
    ultimately show ?thesis using Some l(1) by auto
  qed
  show ?thesis
    by (simp add: read_ser_packed_header [OF hdr fid assms(3-5)] rf ts)
qed

lemma text_fits_ascii:
  "text_fits (py_str_of ''Tester'')" "text_fits (py_str_of ''TestCam'')"
  "text_fits (py_str_of ''TestScope'')" "text_fits (py_str_of '' x'')"
  by (simp_all add: text_fits_def py_str_of_def utf8_encode_char_def)

lemma trimmed_ascii:
  "trimmed (py_str_of ''Tester'')" "trimmed (py_str_of ''TestCam'')"
  "trimmed (py_str_of ''TestScope'')"
  by (simp_all add: trimmed_def py_str_of_def py_isspace_def)

lemma trim_padded: "trim (py_str_of '' x'') = py_str_of ''x''"
  by (simp add: trim_def py_rstrip_nul_def py_strip_def py_str_of_def py_isspace_def)

lemma md0_valid:
  "claimed_valid md0" "fits_header md0"
  "text_fits (observer md0)" "text_fits (instrument md0)" "text_fits (telescope md0)"
  "trimmed (observer md0)" "trimmed (instrument md0)" "trimmed (telescope md0)"
  by (simp_all add: md0_def claimed_valid_def fits_header_def is_u32_def is_u64_def
                    text_fits_ascii trimmed_ascii)

lemma f0_ok: "frames_match md0 [f0]" "frames_shaped md0 [f0]"
  by (simp_all add: frames_match_def frames_shaped_def md0_def f0_def shape_matches_def
                    dtype_of_depth_def ndarray_ok_def)

lemma frames_match_shaped: "frames_match md frames \<Longrightarrow> frames_shaped md frames"
  by (auto simp: frames_match_def frames_shaped_def ndarray_ok_def list_all_iff)

lemma frames_match_astype:
  "frames_match md frames \<Longrightarrow>
   map (\<lambda>f. astype f (dtype_of_depth (pixel_depth md))) frames = frames"
proof -
  assume "frames_match md frames"
  then have "\<forall>f \<in> set frames. astype f (dtype_of_depth (pixel_depth md)) = f"
    using astype_id by (fastforce simp: frames_match_def list_all_iff)
  then show ?thesis by (simp add: map_idI)
qed

lemma md_empty_valid:
  "claimed_valid md_empty" "fits_header md_empty"
  "text_fits (observer md_empty)" "text_fits (instrument md_empty)"
  "text_fits (telescope md_empty)"
  using md0_valid(1-5)
  by (simp_all add: md_empty_def claimed_valid_def fits_header_def is_u32_def)

lemma pack_header_md0: "pack_header md0 = Inr (header_bytes md0)"
proof -
  have "file_id md0 = py_str_of LUCAM_RECORDER" by (simp add: md0_def)
  from pack_header_ok [OF md0_valid(2) this md0_valid(3-5)] show ?thesis .
qed

lemma length_header_md0: "length (header_bytes md0) = 178"
  using length_pack_header [OF pack_header_md0] by (simp add: header_size_def)

lemma md0_fields:
  "file_id md0 = py_str_of LUCAM_RECORDER" "frame_count md0 = 1"
  "image_height md0 = 1" "image_width md0 = 2" "pixel_depth md0 = 8"
  by (simp_all add: md0_def)

lemma shape_f_square: "\<not> shape_matches 1 2 f_square"
  by (simp add: shape_matches_def f_square_def)

lemma shape_f0: "shape_matches 1 2 f0"
  by (simp add: shape_matches_def f0_def)

text \<open>The three text fields of a packed header.\<close>

lemma pack_header_text_fields:
  assumes "pack_header md = Inr hdr"
    "utf8_encode (observer md) = Inr obs" "utf8_encode (instrument md) = Inr ins"
    "utf8_encode (telescope md) = Inr tel"
  shows "field 42 40 (hdr @ body) = pack_s 40 obs"
    "field 82 40 (hdr @ body) = pack_s 40 ins"
    "field 122 40 (hdr @ body) = pack_s 40 tel"
proof -
  from assms(1) obtain fi obs' ins' tel' dt dtu b_lu b_color b_le b_w b_h b_pd b_fc where
    e: "utf8_encode (observer md) = Inr obs'"
       "utf8_encode (instrument md) = Inr ins'"
       "utf8_encode (telescope md) = Inr tel'"
    and p: "pack_uint 4 (lu_id md) = Inr b_lu"
       "pack_uint 4 (color_id md) = Inr b_color"
       "pack_uint 4 (if little_endian md then 1 else 0) = Inr b_le"
       "pack_uint 4 (image_width md) = Inr b_w"
       "pack_uint 4 (image_height md) = Inr b_h"
       "pack_uint 4 (pixel_depth md) = Inr b_pd"
       "pack_uint 4 (frame_count md) = Inr b_fc"
    and h: "hdr = pack_s 14 fi @ b_lu @ b_color @ b_le @ b_w @ b_h @ b_pd @ b_fc
            @ pack_s 40 obs' @ pack_s 40 ins' @ pack_s 40 tel' @ pack_s 8 dt @ pack_s 8 dtu"
    by (rule pack_header_InrD)
  have eq: "obs' = obs" "ins' = ins" "tel' = tel" using e assms(2-4) by simp_all
  have l: "length b_lu = 4" "length b_color = 4" "length b_le = 4" "length b_w = 4"
    "length b_h = 4" "length b_pd = 4" "length b_fc = 4"
    using p by (simp_all add: pack_uint_length)
  show "field 42 40 (hdr @ body) = pack_s 40 obs"
    "field 82 40 (hdr @ body) = pack_s 40 ins"
    "field 122 40 (hdr @ body) = pack_s 40 tel"
    unfolding h eq by (simp_all add: field_def l)
qed

lemma utf8_encode_long_observer:
  "utf8_encode (py_str_of long_observer) = Inr (bytes_of long_observer)"
  by (simp add: py_str_of_def bytes_of_def long_observer_def utf8_encode_char_def)

lemma length_long_observer: "length (bytes_of long_observer) = 44"
  by (simp add: bytes_of_def long_observer_def)

lemma pack_s_long_observer:
  "pack_s 40 (bytes_of long_observer) = bytes_of ''Observatoire de Haute-Provence, France (''"
  by (simp add: pack_s_def bytes_of_def long_observer_def)

lemma pack_header_encoded:
  assumes "fits_header md" "file_id md = py_str_of LUCAM_RECORDER"
    "utf8_encode (observer md) = Inr obs" "utf8_encode (instrument md) = Inr ins"
    "utf8_encode (telescope md) = Inr tel"
  shows "pack_header md = Inr (header_bytes md)"
proof -
  have "is_u32 (if little_endian md then 1 else 0)" by (simp add: is_u32_def)
  then have "\<exists>hdr. pack_header md = Inr hdr"
    using assms utf8_encode_LUCAM
    by (simp add: pack_header_def fits_header_def pack_uint_4 pack_uint_8)
  then show ?thesis by (auto simp: header_bytes_def)
qed

lemma write_ser_encoded:
  assumes "fits_header md" "file_id md = py_str_of LUCAM_RECORDER"
    "utf8_encode (observer md) = Inr obs" "utf8_encode (instrument md) = Inr ins"
    "utf8_encode (telescope md) = Inr tel"
    "frames_shaped md frames" "timestamps_match md timestamps"
  shows "write_ser md frames timestamps =
         (Inr (), Some (header_bytes md @ frames_bytes (dtype_of_depth (pixel_depth md)) frames
                        @ timestamps_bytes (case timestamps of None \<Rightarrow> [] | Some ts \<Rightarrow> ts)))"
proof -
  have hdr: "pack_header md = Inr (header_bytes md)"
    using assms(1-5) by (rule pack_header_encoded)
  have len: "int (length frames) = frame_count md"
    and sh: "list_all (shape_matches (image_height md) (image_width md)) frames"
    using assms(6) by (auto simp: frames_shaped_def list_all_iff)
  have tw: "list_all is_u64 ts \<Longrightarrow> takeWhile is_u64 ts = ts" for ts
    by (simp add: list_all_iff)
  show ?thesis
    using assms(7)
    by (auto simp: write_ser_eq assms(2) len hdr sh timestamps_match_def tw split: option.splits)
qed

lemma md_long_valid:
  "file_id md_long = py_str_of LUCAM_RECORDER" "fits_header md_long"
  "utf8_encode (observer md_long) = Inr (bytes_of long_observer)"
  "utf8_encode (instrument md_long) = Inr (bytes_of ''TestCam'')"
  "utf8_encode (telescope md_long) = Inr (bytes_of ''TestScope'')"
  "frames_shaped md_long [f0]"
  using md0_valid(2) f0_ok(2) utf8_encode_long_observer
  by (simp_all add: md_long_def md0_def fits_header_def frames_shaped_def
                    py_str_of_def bytes_of_def utf8_encode_char_def)

lemma chunks_single: "xs \<noteq> [] \<Longrightarrow> length xs \<le> n \<Longrightarrow> chunks n xs = [xs]"
  by (subst chunks.simps) (cases xs; auto)

lemma md12_valid:
  "file_id md12 = py_str_of LUCAM_RECORDER" "fits_header md12"
  "text_fits (observer md12)" "text_fits (instrument md12)" "text_fits (telescope md12)"
  "frames_shaped md12 [f12]"
  using md0_valid(2-5)
  by (simp_all add: md12_def md0_def fits_header_def is_u32_def frames_shaped_def
                    shape_matches_def f12_def)

lemma md24_valid:
  "file_id md24 = py_str_of LUCAM_RECORDER" "fits_header md24"
  "text_fits (observer md24)" "text_fits (instrument md24)" "text_fits (telescope md24)"
  using md0_valid(2-5)
  by (simp_all add: md24_def md0_def fits_header_def is_u32_def)

lemma trim_md0:
  "md0\<lparr>observer := trim (observer md0), instrument := trim (instrument md0),
        telescope := trim (telescope md0)\<rparr> = md0"
  using md0_valid(6-8) by (simp add: trim_trimmed)

lemma le_bytes_2: "le_bytes 2 x = [of_nat (x mod 256), of_nat (x div 256 mod 256)]"
  by (simp add: numeral_2_eq_2)

lemma frames_bytes_f12: "frames_bytes UInt16 [f12] = [7, 0, 160, 15]"
  by (simp add: frames_bytes_def tobytes_def astype_def f12_def le_bytes_2)

lemma field_take: "off + n \<le> k \<Longrightarrow> field off n (take k bs) = field off n bs"
  by (simp add: field_def drop_take min_def)

lemma read_frames_zero:
  "0 < count \<Longrightarrow>
   read_frames count 0 dt height width stream = Inl (ValueError Unexpected_end_of_file)"
  by (cases count) (simp_all add: file_read_def)

lemma frame_size_zero: "width = 0 \<or> height = 0 \<or> depth < 8 \<Longrightarrow> frame_size width height depth = 0"
  by (auto simp: frame_size_def)

lemma decodable_decode_field: "decodable v \<Longrightarrow> \<exists>s. decode_field v = Inr s"
  by (auto simp: decodable_def decode_field_def split: sum.splits)

lemma decodable_LUCAM: "decodable (bytes_of LUCAM_RECORDER)"
  using utf8_decode_padded [OF utf8_encode_LUCAM, of 0] by (simp add: decodable_def)

lemma decodable_nuls: "decodable (replicate k 0)"
  by (simp add: decodable_def utf8_decode_nuls)

lemma from_le_nuls: "from_le (replicate k 0) = 0"
  by (induction k) simp_all

text \<open>\<open>read_ser\<close> on a header that declares frames of size zero.\<close>

lemma read_ser_zero_size:
  assumes "178 \<le> length input"
    and "1 \<le> from_le (field 38 4 input)"
    and "from_le (field 26 4 input) = 0 \<or> from_le (field 30 4 input) = 0
         \<or> from_le (field 34 4 input) < 8"
  shows "read_ser input =
         (if field 0 14 input \<noteq> bytes_of LUCAM_RECORDER then Inl (ValueError Incorrect_File_ID)
          else bind_err (decode_field (field 0 14 input)) (\<lambda>fid.
               bind_err (decode_field (field 42 40 input)) (\<lambda>obs.
               bind_err (decode_field (field 82 40 input)) (\<lambda>ins.
               bind_err (decode_field (field 122 40 input)) (\<lambda>tel.
                 Inl (ValueError Unexpected_end_of_file))))))"
proof -
  define h where "h =
    \<lparr>h_file_id = field 0 14 input,
     h_lu_id = from_le (field 14 4 input),
     h_color_id = from_le (field 18 4 input),
     h_little_endian = from_le (field 22 4 input),
     h_image_width = from_le (field 26 4 input),
     h_image_height = from_le (field 30 4 input),
     h_pixel_depth = from_le (field 34 4 input),
     h_frame_count = from_le (field 38 4 input),
     h_observer = field 42 40 input,
     h_instrument = field 82 40 input,
     h_telescope = field 122 40 input,
     h_date_time = field 162 8 input,
     h_date_time_utc = field 170 8 input\<rparr>"
  have u: "unpack_header (take 178 input) = Inr h"
    using assms(1) by (simp add: unpack_header_def header_size_def h_def field_take)
  have fs: "frame_size (h_image_width h) (h_image_height h) (h_pixel_depth h) = 0"
    using assms(3) by (intro frame_size_zero) (simp add: h_def)
  have fc: "0 < h_frame_count h" using assms(2) by (simp add: h_def)
  have rf: "read_frames (h_frame_count h) 0 dt (h_image_height h) (h_image_width h) s =
            Inl (ValueError Unexpected_end_of_file)" for dt s
    using fc by (rule read_frames_zero)
  have "read_ser input =
         (if h_file_id h \<noteq> bytes_of LUCAM_RECORDER then Inl (ValueError Incorrect_File_ID)
          else bind_err (decode_field (h_file_id h)) (\<lambda>fid.
               bind_err (decode_field (h_observer h)) (\<lambda>obs.
               bind_err (decode_field (h_instrument h)) (\<lambda>ins.
               bind_err (decode_field (h_telescope h)) (\<lambda>tel.
                 Inl (ValueError Unexpected_end_of_file))))))"
    by (simp add: read_ser_def file_read_def header_size_def u Let_def fs rf)
  then show ?thesis by (simp add: h_def)
qed

lemma zero_size_header_fields:
  "length zero_size_header = 178"
  "field 0 14 (zero_size_header @ rest) = bytes_of LUCAM_RECORDER"
  "field 26 4 (zero_size_header @ rest) = replicate 4 0"
  "field 38 4 (zero_size_header @ rest) = [1, 0, 0, 0]"
  "field 42 40 (zero_size_header @ rest) = replicate 40 0"
  "field 82 40 (zero_size_header @ rest) = replicate 40 0"
  "field 122 40 (zero_size_header @ rest) = replicate 40 0"
  by (simp_all add: zero_size_header_def field_def length_LUCAM)

section \<open>The claims\<close>

text \<open>
  C9. Whenever the number of frames supplied differs from \<open>frame_count\<close> of the
  metadata, \<open>write_ser\<close> raises a \<open>ValueError\<close> (the one for the frame count, or the
  one for \<open>file_id\<close> when that check, which comes first, fails too), and the
  destination is never opened: nothing is written.
\<close>

theorem write_ser_frame_count_mismatch:
  "int (length frames) \<noteq> frame_count md \<Longrightarrow>
   write_ser md frames ts =
     (Inl (ValueError (if file_id md = py_str_of LUCAM_RECORDER
                       then Frame_count_mismatch else Invalid_metadata_file_id)), None)"
  by (simp add: write_ser_def Let_def)

theorem write_ser_frame_count_mismatch_witness:
  "int (length ([] :: ndarray list)) \<noteq> frame_count md0 \<and>
   write_ser md0 [] None = (Inl (ValueError Frame_count_mismatch), None)"
  using write_ser_frame_count_mismatch [of "[]" md0 None] by (simp add: md0_def)

text \<open>
  C5. On every input shorter than the 178 bytes of the header, \<open>read_ser\<close> fails: the
  unpacking of the short header raises \<open>struct.error\<close>, and no result is returned.
\<close>

theorem read_ser_truncated_header:
  "length input < 178 \<Longrightarrow> read_ser input = Inl StructError"
  by (simp add: read_ser_def file_read_def unpack_header_def header_size_def)

theorem read_ser_truncated_header_witness:
  "length ([0, 1, 2] :: byte list) < 178 \<and> read_ser [0, 1, 2] = Inl StructError"
  using read_ser_truncated_header [of "[0, 1, 2]"] by simp

text \<open>
  C1, as amended. For metadata with the file id, a pixel depth of 8 or 16 and positive
  dimensions, whose integers fit their header fields and whose three texts fit their
  40 bytes and are already trimmed (no trailing null, no white space at either end),
  and for as many frames as counted, each of the declared shape with samples of the
  element type of the pixel depth: \<open>write_ser\<close> succeeds, and \<open>read_ser\<close> on the file
  returns the same metadata and the same frames in the same order. The timestamps come
  back as given, except that a file without frames yields the empty list.
\<close>

theorem write_read_round_trip:
  assumes "claimed_valid md" "fits_header md"
    "text_fits (observer md)" "text_fits (instrument md)" "text_fits (telescope md)"
    "trimmed (observer md)" "trimmed (instrument md)" "trimmed (telescope md)"
    "frames_match md frames" "timestamps_match md timestamps"
  shows "\<exists>out. write_ser md frames timestamps = (Inr (), Some out) \<and>
               read_ser out = Inr (md, frames, if frame_count md = 0 then Some [] else timestamps)"
proof -
  have fid: "file_id md = py_str_of LUCAM_RECORDER" using assms(1) by (simp add: claimed_valid_def)
  have sh: "frames_shaped md frames" using assms(9) by (rule frames_match_shaped)
  have md: "md\<lparr>observer := trim (observer md), instrument := trim (instrument md),
               telescope := trim (telescope md)\<rparr> = md"
    using assms(6-8) by (simp add: trim_trimmed)
  show ?thesis
    using write_ser_ok [OF assms(2) fid assms(3-5) sh assms(10)]
          read_written [OF assms(2,1) assms(3-5) sh assms(10)]
    by (simp add: md frames_match_astype [OF assms(9)])
qed

theorem write_read_round_trip_witness:
  "claimed_valid md0 \<and> fits_header md0
   \<and> text_fits (observer md0) \<and> text_fits (instrument md0) \<and> text_fits (telescope md0)
   \<and> trimmed (observer md0) \<and> trimmed (instrument md0) \<and> trimmed (telescope md0)
   \<and> frames_match md0 [f0] \<and> timestamps_match md0 (Some [637738597820000000])
   \<and> (\<exists>out. write_ser md0 [f0] (Some [637738597820000000]) = (Inr (), Some out) \<and>
              read_ser out = Inr (md0, [f0], Some [637738597820000000]))"
proof -
  have ts: "timestamps_match md0 (Some [637738597820000000])"
    by (simp add: timestamps_match_def md0_def is_u64_def)
  have fc: "frame_count md0 \<noteq> 0" by (simp add: md0_def)
  show ?thesis
    using write_read_round_trip [OF md0_valid f0_ok(1) ts] md0_valid f0_ok(1) ts fc by simp
qed

text \<open>
  C1 as stated fails: the observer \<open>" x"\<close> is valid in the sense of the claim, the file
  is written, and \<open>read_ser\<close> returns the observer \<open>"x"\<close>.
\<close>

theorem round_trip_counterexample:
  "claimed_valid md_padded \<and> frames_match md_padded [f0]
   \<and> write_ser md_padded [f0] None
       = (Inr (), Some (header_bytes md_padded @ frames_bytes UInt8 [f0]))
   \<and> read_ser (header_bytes md_padded @ frames_bytes UInt8 [f0])
       = Inr (md_padded\<lparr>observer := py_str_of ''x''\<rparr>, [f0], None)
   \<and> md_padded\<lparr>observer := py_str_of ''x''\<rparr> \<noteq> md_padded"
proof -
  have v: "claimed_valid md_padded" "fits_header md_padded"
    "text_fits (observer md_padded)" "text_fits (instrument md_padded)"
    "text_fits (telescope md_padded)"
    using md0_valid(1-5)
    by (simp_all add: md_padded_def claimed_valid_def fits_header_def text_fits_ascii)
  have fm: "frames_match md_padded [f0]" using f0_ok(1)
    by (simp add: md_padded_def frames_match_def)
  have sh: "frames_shaped md_padded [f0]" using fm by (rule frames_match_shaped)
  have tm: "timestamps_match md_padded None" by (simp add: timestamps_match_def)
  have fid: "file_id md_padded = py_str_of LUCAM_RECORDER"
    using v(1) by (simp add: claimed_valid_def)
  have dt: "dtype_of_depth (pixel_depth md_padded) = UInt8"
    by (simp add: md_padded_def md0_def dtype_of_depth_def)
  have tr: "trim (observer md_padded) = py_str_of ''x''"
    "trim (instrument md_padded) = instrument md_padded"
    "trim (telescope md_padded) = telescope md_padded"
    using md0_valid(7,8) by (simp_all add: md_padded_def trim_padded trim_trimmed)
  have fc: "frame_count md_padded \<noteq> 0" by (simp add: md_padded_def md0_def)
  have ne: "md_padded\<lparr>observer := py_str_of ''x''\<rparr> \<noteq> md_padded"
  proof
    assume "md_padded\<lparr>observer := py_str_of ''x''\<rparr> = md_padded"
    then have "observer (md_padded\<lparr>observer := py_str_of ''x''\<rparr>) = observer md_padded"
      by simp
    then show False by (simp add: md_padded_def py_str_of_def)
  qed
  have a: "astype f0 UInt8 = f0" by (simp add: astype_def f0_def)
  show ?thesis
    using write_ser_ok [OF v(2) fid v(3-5) sh tm] read_written [OF v(2,1) v(3-5) sh tm]
          v(1) fm ne fc
    by (simp add: dt tr a)
qed

text \<open>
  C4, as amended. For metadata with the file id, a pixel depth of 8 or 16 and positive
  dimensions, whose integers fit their header fields and whose texts fit their 40
  bytes, and for as many frames as counted, each of the declared shape: \<open>write_ser\<close>
  without timestamps succeeds, and \<open>read_ser\<close> on the file returns \<open>None\<close> for the
  timestamps when \<open>frame_count\<close> is at least 1, and the empty list when it is 0.
\<close>

theorem write_read_no_timestamps:
  assumes "claimed_valid md" "fits_header md"
    "text_fits (observer md)" "text_fits (instrument md)" "text_fits (telescope md)"
    "frames_shaped md frames"
  shows "\<exists>out md' frames'.
           write_ser md frames None = (Inr (), Some out) \<and>
           read_ser out = Inr (md', frames', if frame_count md = 0 then Some [] else None)"
proof -
  have fid: "file_id md = py_str_of LUCAM_RECORDER" using assms(1) by (simp add: claimed_valid_def)
  have tm: "timestamps_match md None" by (simp add: timestamps_match_def)
  show ?thesis
    using write_ser_ok [OF assms(2) fid assms(3-6) tm] read_written [OF assms(2,1) assms(3-6) tm]
    by simp
qed

theorem write_read_no_timestamps_witness:
  "claimed_valid md0 \<and> fits_header md0
   \<and> text_fits (observer md0) \<and> text_fits (instrument md0) \<and> text_fits (telescope md0)
   \<and> frames_shaped md0 [f0]
   \<and> (\<exists>out md' frames'.
         write_ser md0 [f0] None = (Inr (), Some out) \<and> read_ser out = Inr (md', frames', None))"
proof -
  have fc: "frame_count md0 \<noteq> 0" by (simp add: md0_def)
  show ?thesis
    using write_read_no_timestamps [OF md0_valid(1-5) f0_ok(2)] md0_valid(1-5) f0_ok(2) fc
    by simp
qed

text \<open>
  C4 as stated fails for \<open>frame_count = 0\<close>: the file holds the header only, and
  \<open>read_ser\<close> returns the empty list of timestamps, not \<open>None\<close>.
\<close>

theorem no_timestamps_counterexample:
  "claimed_valid md_empty \<and> frames_shaped md_empty []
   \<and> write_ser md_empty [] None = (Inr (), Some (header_bytes md_empty))
   \<and> read_ser (header_bytes md_empty) = Inr (md_empty, [], Some [])"
proof -
  have sh: "frames_shaped md_empty []" by (simp add: frames_shaped_def md_empty_def)
  have tm: "timestamps_match md_empty None" by (simp add: timestamps_match_def)
  have fid: "file_id md_empty = py_str_of LUCAM_RECORDER"
    using md_empty_valid(1) by (simp add: claimed_valid_def)
  have fc: "frame_count md_empty = 0" by (simp add: md_empty_def)
  have tr: "md_empty\<lparr>observer := trim (observer md_empty),
                      instrument := trim (instrument md_empty),
                      telescope := trim (telescope md_empty)\<rparr> = md_empty"
    using md0_valid(6-8) by (simp add: md_empty_def trim_trimmed)
  show ?thesis
    using write_ser_ok [OF md_empty_valid(2) fid md_empty_valid(3-5) sh tm]
          read_written [OF md_empty_valid(2,1) md_empty_valid(3-5) sh tm]
          md_empty_valid(1) sh
    by (simp add: fc tr)
qed

text \<open>
  C8. A supplied timestamp sequence whose length differs from \<open>frame_count\<close> should make
  \<open>write_ser\<close> fail. The empty sequence is not checked: \<open>if timestamps:\<close> treats it as
  no timestamps at all, whatever the metadata and the frames are; for the test metadata,
  which counts one frame, \<open>write_ser\<close> succeeds and writes the header and the frame.
\<close>

theorem write_ser_empty_timestamps:
  "write_ser md frames (Some []) = write_ser md frames None
   \<and> frame_count md0 = 1
   \<and> write_ser md0 [f0] (Some []) = (Inr (), Some (header_bytes md0 @ frames_bytes UInt8 [f0]))"
proof -
  have a: "write_ser md frames (Some []) = write_ser md frames None"
    by (simp add: write_ser_eq split: sum.split)
  have sh: "shape_matches 1 2 f0"
    by (simp add: shape_matches_def f0_def)
  have b: "write_ser md0 [f0] (Some []) = (Inr (), Some (header_bytes md0 @ frames_bytes UInt8 [f0]))"
    by (simp add: write_ser_eq pack_header_md0 md0_fields sh dtype_of_depth_def)
  from a b md0_fields(2) show ?thesis by simp
qed

text \<open>
  C2, as amended. Only the wrong file id and the wrong number of frames are found before
  the destination is opened: \<open>write_ser\<close> raises and the destination is untouched. A frame
  of the wrong shape is found in the loop that writes the frames: \<open>write_ser\<close> raises after
  the 178 bytes of the header and every frame before the first wrong one have been
  written. A non-empty timestamp sequence of the wrong length is found after the header
  and all frames have been written. In both cases the partial file stays.
\<close>

theorem write_ser_validation_points:
  "(file_id md \<noteq> py_str_of LUCAM_RECORDER \<longrightarrow>
      write_ser md frames timestamps = (Inl (ValueError Invalid_metadata_file_id), None))
   \<and> (file_id md = py_str_of LUCAM_RECORDER \<and> int (length frames) \<noteq> frame_count md \<longrightarrow>
      write_ser md frames timestamps = (Inl (ValueError Frame_count_mismatch), None))
   \<and> (file_id md = py_str_of LUCAM_RECORDER \<and> int (length frames) = frame_count md
       \<and> pack_header md = Inr hdr
       \<and> \<not> list_all (shape_matches (image_height md) (image_width md)) frames \<longrightarrow>
      length hdr = 178
      \<and> write_ser md frames timestamps =
          (Inl (ValueError Frame_dimensions_mismatch),
           Some (hdr @ frames_bytes (dtype_of_depth (pixel_depth md))
                         (takeWhile (shape_matches (image_height md) (image_width md)) frames))))
   \<and> (file_id md = py_str_of LUCAM_RECORDER \<and> int (length frames) = frame_count md
       \<and> pack_header md = Inr hdr
       \<and> list_all (shape_matches (image_height md) (image_width md)) frames
       \<and> ts \<noteq> [] \<and> int (length ts) \<noteq> frame_count md \<longrightarrow>
      length hdr = 178
      \<and> write_ser md frames (Some ts) =
          (Inl (ValueError Timestamp_count_mismatch),
           Some (hdr @ frames_bytes (dtype_of_depth (pixel_depth md)) frames)))"
proof -
  have len: "pack_header md = Inr hdr \<Longrightarrow> length hdr = 178"
    using length_pack_header [of md hdr] by (simp add: header_size_def)
  have 1: "file_id md \<noteq> py_str_of LUCAM_RECORDER \<longrightarrow>
      write_ser md frames timestamps = (Inl (ValueError Invalid_metadata_file_id), None)"
    by (simp add: write_ser_eq)
  have 2: "file_id md = py_str_of LUCAM_RECORDER \<and> int (length frames) \<noteq> frame_count md \<longrightarrow>
      write_ser md frames timestamps = (Inl (ValueError Frame_count_mismatch), None)"
    by (simp add: write_ser_eq)
  have 3: "file_id md = py_str_of LUCAM_RECORDER \<and> int (length frames) = frame_count md
       \<and> pack_header md = Inr hdr
       \<and> \<not> list_all (shape_matches (image_height md) (image_width md)) frames \<longrightarrow>
      length hdr = 178
      \<and> write_ser md frames timestamps =
          (Inl (ValueError Frame_dimensions_mismatch),
           Some (hdr @ frames_bytes (dtype_of_depth (pixel_depth md))
                         (takeWhile (shape_matches (image_height md) (image_width md)) frames)))"
    using len by (simp add: write_ser_eq)
  have 4: "file_id md = py_str_of LUCAM_RECORDER \<and> int (length frames) = frame_count md
       \<and> pack_header md = Inr hdr
       \<and> list_all (shape_matches (image_height md) (image_width md)) frames
       \<and> ts \<noteq> [] \<and> int (length ts) \<noteq> frame_count md \<longrightarrow>
      length hdr = 178
      \<and> write_ser md frames (Some ts) =
          (Inl (ValueError Timestamp_count_mismatch),
           Some (hdr @ frames_bytes (dtype_of_depth (pixel_depth md)) frames))"
    using len by (simp add: write_ser_eq)
  from 1 2 3 4 show ?thesis by blast
qed

theorem write_ser_validation_points_witness:
  "file_id md_other_id \<noteq> py_str_of LUCAM_RECORDER
   \<and> write_ser md_other_id [f0] None = (Inl (ValueError Invalid_metadata_file_id), None)
   \<and> file_id md0 = py_str_of LUCAM_RECORDER \<and> int (length [f0, f0]) \<noteq> frame_count md0
   \<and> write_ser md0 [f0, f0] None = (Inl (ValueError Frame_count_mismatch), None)
   \<and> int (length [f_square]) = frame_count md0
   \<and> pack_header md0 = Inr (header_bytes md0)
   \<and> \<not> list_all (shape_matches (image_height md0) (image_width md0)) [f_square]
   \<and> length (header_bytes md0) = 178
   \<and> write_ser md0 [f_square] None =
        (Inl (ValueError Frame_dimensions_mismatch), Some (header_bytes md0))
   \<and> list_all (shape_matches (image_height md0) (image_width md0)) [f0]
   \<and> int (length [3, 4 :: int]) \<noteq> frame_count md0
   \<and> write_ser md0 [f0] (Some [3, 4]) =
        (Inl (ValueError Timestamp_count_mismatch),
         Some (header_bytes md0 @ frames_bytes UInt8 [f0]))"
proof -
  have id: "file_id md_other_id \<noteq> py_str_of LUCAM_RECORDER"
    by (simp add: md_other_id_def py_str_of_def LUCAM_RECORDER_def)
  show ?thesis
    using write_ser_validation_points [of md_other_id "[f0]" None "[]" "[]"]
          write_ser_validation_points [of md0 "[f0, f0]" None "[]" "[]"]
          write_ser_validation_points [of md0 "[f_square]" None "header_bytes md0" "[]"]
          write_ser_validation_points [of md0 "[f0]" None "header_bytes md0" "[3, 4]"]
          id pack_header_md0 shape_f_square shape_f0
    by (simp add: md0_fields dtype_of_depth_def)
qed

text \<open>
  C2 as stated fails for a frame of the wrong shape: \<open>write_ser\<close> raises, and the
  destination holds the 178 bytes of the header.
\<close>

theorem partial_file_counterexample:
  "int (length [f_square]) = frame_count md0
   \<and> \<not> shape_matches (image_height md0) (image_width md0) f_square
   \<and> write_ser md0 [f_square] None =
        (Inl (ValueError Frame_dimensions_mismatch), Some (header_bytes md0))
   \<and> length (header_bytes md0) = 178"
  by (simp add: write_ser_eq pack_header_md0 md0_fields shape_f_square length_header_md0)

text \<open>
  C7, as amended. For every metadata whose \<open>file_id\<close> is not \<open>LUCAM-RECORDER\<close>,
  \<open>write_ser\<close> raises the \<open>ValueError\<close> of the file id and leaves the destination
  untouched. The length of a text field is not checked: when the file id is right, the
  integers fit their fields, the three texts can be encoded, the frames are as declared
  and the timestamps, if any, are one per frame, \<open>write_ser\<close> succeeds whatever the
  lengths of the texts are, and each text field of the file holds the first 40 bytes of
  the encoded text, padded with null bytes when there are fewer.
\<close>

theorem write_ser_text_fields:
  "(file_id md \<noteq> py_str_of LUCAM_RECORDER \<longrightarrow>
      write_ser md frames timestamps = (Inl (ValueError Invalid_metadata_file_id), None))
   \<and> (file_id md = py_str_of LUCAM_RECORDER \<and> fits_header md
       \<and> utf8_encode (observer md) = Inr obs \<and> utf8_encode (instrument md) = Inr ins
       \<and> utf8_encode (telescope md) = Inr tel
       \<and> frames_shaped md frames \<and> timestamps_match md timestamps \<longrightarrow>
      (\<exists>out. write_ser md frames timestamps = (Inr (), Some out)
         \<and> field 42 40 out = take 40 obs @ replicate (40 - length obs) 0
         \<and> field 82 40 out = take 40 ins @ replicate (40 - length ins) 0
         \<and> field 122 40 out = take 40 tel @ replicate (40 - length tel) 0))"
proof (intro conjI impI)
  assume "file_id md \<noteq> py_str_of LUCAM_RECORDER"
  then show "write_ser md frames timestamps = (Inl (ValueError Invalid_metadata_file_id), None)"
    by (simp add: write_ser_eq)
next
  assume a: "file_id md = py_str_of LUCAM_RECORDER \<and> fits_header md
       \<and> utf8_encode (observer md) = Inr obs \<and> utf8_encode (instrument md) = Inr ins
       \<and> utf8_encode (telescope md) = Inr tel
       \<and> frames_shaped md frames \<and> timestamps_match md timestamps"
  then have fid: "file_id md = py_str_of LUCAM_RECORDER" and fh: "fits_header md"
    and e: "utf8_encode (observer md) = Inr obs" "utf8_encode (instrument md) = Inr ins"
      "utf8_encode (telescope md) = Inr tel"
    and fr: "frames_shaped md frames" and tm: "timestamps_match md timestamps"
    by simp_all
  have hdr: "pack_header md = Inr (header_bytes md)"
    using fh fid e by (rule pack_header_encoded)
  have w: "write_ser md frames timestamps =
         (Inr (), Some (header_bytes md @ frames_bytes (dtype_of_depth (pixel_depth md)) frames
                        @ timestamps_bytes (case timestamps of None \<Rightarrow> [] | Some ts \<Rightarrow> ts)))"
    using fh fid e fr tm by (rule write_ser_encoded)
  show "\<exists>out. write_ser md frames timestamps = (Inr (), Some out)
         \<and> field 42 40 out = take 40 obs @ replicate (40 - length obs) 0
         \<and> field 82 40 out = take 40 ins @ replicate (40 - length ins) 0
         \<and> field 122 40 out = take 40 tel @ replicate (40 - length tel) 0"
    unfolding w using pack_header_text_fields [OF hdr e]
    by (simp add: pack_s_def)
qed

theorem write_ser_text_fields_witness:
  "file_id md_other_id \<noteq> py_str_of LUCAM_RECORDER
   \<and> write_ser md_other_id [f0] None = (Inl (ValueError Invalid_metadata_file_id), None)
   \<and> file_id md_long = py_str_of LUCAM_RECORDER \<and> fits_header md_long
   \<and> utf8_encode (observer md_long) = Inr (bytes_of long_observer)
   \<and> utf8_encode (instrument md_long) = Inr (bytes_of ''TestCam'')
   \<and> utf8_encode (telescope md_long) = Inr (bytes_of ''TestScope'')
   \<and> frames_shaped md_long [f0] \<and> timestamps_match md_long None
   \<and> (\<exists>out. write_ser md_long [f0] None = (Inr (), Some out)
         \<and> field 42 40 out = bytes_of ''Observatoire de Haute-Provence, France (''
         \<and> field 82 40 out = bytes_of ''TestCam'' @ replicate 33 0
         \<and> field 122 40 out = bytes_of ''TestScope'' @ replicate 31 0)"
proof -
  have id: "file_id md_other_id \<noteq> py_str_of LUCAM_RECORDER"
    by (simp add: md_other_id_def py_str_of_def LUCAM_RECORDER_def)
  have tm: "timestamps_match md_long None" by (simp add: timestamps_match_def)
  have t: "take 40 (bytes_of long_observer) @ replicate (40 - length (bytes_of long_observer)) 0
           = bytes_of ''Observatoire de Haute-Provence, France (''"
    using pack_s_long_observer by (simp add: pack_s_def)
  have u: "take 40 (bytes_of ''TestCam'') @ replicate (40 - length (bytes_of ''TestCam'')) 0
           = bytes_of ''TestCam'' @ replicate 33 0"
    "take 40 (bytes_of ''TestScope'') @ replicate (40 - length (bytes_of ''TestScope'')) 0
           = bytes_of ''TestScope'' @ replicate 31 0"
    by (simp_all add: bytes_of_def)
  show ?thesis
    using write_ser_text_fields [of md_other_id "[f0]" None "[]" "[]" "[]"]
          write_ser_text_fields [of md_long "[f0]" None "bytes_of long_observer"
                                    "bytes_of ''TestCam''" "bytes_of ''TestScope''"]
          id tm md_long_valid
    unfolding t u
    by simp
qed

text \<open>
  C7 as stated fails for an observer of 44 bytes: \<open>write_ser\<close> succeeds, and the field
  of the file holds the first 40 of them.
\<close>

theorem long_observer_counterexample:
  "utf8_encode (observer md_long) = Inr (bytes_of long_observer)
   \<and> length (bytes_of long_observer) = 44
   \<and> write_ser md_long [f0] None =
        (Inr (), Some (header_bytes md_long @ frames_bytes UInt8 [f0]))
   \<and> field 42 40 (header_bytes md_long @ frames_bytes UInt8 [f0]) =
        bytes_of ''Observatoire de Haute-Provence, France (''"
proof -
  have tm: "timestamps_match md_long None" by (simp add: timestamps_match_def)
  have hdr: "pack_header md_long = Inr (header_bytes md_long)"
    using md_long_valid(2,1,3,4,5) by (rule pack_header_encoded)
  have pd: "dtype_of_depth (pixel_depth md_long) = UInt8"
    by (simp add: md_long_def md0_def dtype_of_depth_def)
  show ?thesis
    using write_ser_encoded [OF md_long_valid(2,1,3,4,5,6) tm]
          pack_header_text_fields(1) [OF hdr md_long_valid(3,4,5)]
          md_long_valid(3) length_long_observer pack_s_long_observer
    by (simp add: pd)
qed

text \<open>
  C3. For a pixel depth above 8, both functions take 16-bit samples, so a frame should
  take \<open>image_width * image_height * 2\<close> bytes on both sides. \<open>write_ser\<close> writes that
  many; \<open>read_ser\<close> reads \<open>image_width * image_height * (pixel_depth // 8)\<close>. For a
  pixel depth of 12 and one frame of one row and two columns, \<open>write_ser\<close> writes a
  frame of 4 bytes, \<open>read_ser\<close> reads 2 bytes for it, and the file \<open>write_ser\<close> produced
  is rejected by \<open>read_ser\<close>: the one sample read cannot be reshaped to one row of two
  columns.
\<close>

theorem frame_size_depth_12:
  "dtype_of_depth 12 = UInt16
   \<and> length (frames_bytes (dtype_of_depth 12) [f12]) = 4
   \<and> frame_size 2 1 12 = 2
   \<and> write_ser md12 [f12] None = (Inr (), Some (header_bytes md12 @ frames_bytes UInt16 [f12]))
   \<and> read_ser (header_bytes md12 @ frames_bytes UInt16 [f12]) = Inl (ValueError Cannot_reshape)"
proof -
  have dt: "dtype_of_depth (pixel_depth md12) = UInt16" "dtype_of_depth 12 = UInt16"
    by (simp_all add: md12_def dtype_of_depth_def)
  have fs: "frame_size 2 1 12 = 2" by (simp add: frame_size_def)
  have tm: "timestamps_match md12 None" by (simp add: timestamps_match_def)
  have w: "write_ser md12 [f12] None = (Inr (), Some (header_bytes md12 @ frames_bytes UInt16 [f12]))"
    using write_ser_ok [OF md12_valid(2,1,3,4,5,6) tm] by (simp add: dt)
  have hdr: "pack_header md12 = Inr (header_bytes md12)"
    using md12_valid(2,1,3,4,5) by (rule pack_header_ok)
  have v: "nat (frame_count md12) = Suc 0" "nat (image_width md12) = 2"
    "nat (image_height md12) = 1" "nat (pixel_depth md12) = 12"
    by (simp_all add: md12_def md0_def)
  have c: "chunks 2 [7, 0 :: byte] = [[7, 0]]" by (simp add: chunks_single)
  have r: "read_ser (header_bytes md12 @ frames_bytes UInt16 [f12]) = Inl (ValueError Cannot_reshape)"
    unfolding read_ser_packed_header [OF hdr md12_valid(1,3,4,5)] v dt fs frames_bytes_f12
    by (simp add: file_read_def frombuffer_def reshape_def c)
  from dt(2) fs w r frames_bytes_f12 show ?thesis by simp
qed

text \<open>
  C6. A frame for which fewer bytes remain than its size should make \<open>read_ser\<close> raise
  its end-of-file error. \<open>read_ser\<close> raises it only when no byte at all remains. For the
  test metadata (frames of 2 bytes) and one byte after the header, the error comes from
  the reshaping of the one sample read. For a pixel depth of 24 and frames of one sample
  (3 bytes are asked for) and two bytes after the header, \<open>read_ser\<close> succeeds and
  returns a frame made of the two bytes.
\<close>

theorem read_ser_short_frame:
  "frame_size 2 1 8 = 2
   \<and> read_ser (header_bytes md0 @ [7]) = Inl (ValueError Cannot_reshape)
   \<and> frame_size 1 1 24 = 3
   \<and> read_ser (header_bytes md24 @ [1, 2]) =
        Inr (md24, [\<lparr>dtype = UInt16, shape = [1, 1], data = [513]\<rparr>], None)"
proof -
  have fs: "frame_size 2 1 8 = 2" "frame_size 1 1 24 = 3" by (simp_all add: frame_size_def)
  have dt: "dtype_of_depth (pixel_depth md0) = UInt8" "dtype_of_depth (pixel_depth md24) = UInt16"
    by (simp_all add: md24_def md0_def dtype_of_depth_def)
  have v0: "nat (frame_count md0) = Suc 0" "nat (image_width md0) = 2"
    "nat (image_height md0) = 1" "nat (pixel_depth md0) = 8"
    by (simp_all add: md0_def)
  have v24: "nat (frame_count md24) = Suc 0" "nat (image_width md24) = 1"
    "nat (image_height md24) = 1" "nat (pixel_depth md24) = 24"
    by (simp_all add: md24_def md0_def)
  have c0: "chunks (Suc 0) [7 :: byte] = [[7]]" by (simp add: chunks_single)
  have r0: "read_ser (header_bytes md0 @ [7]) = Inl (ValueError Cannot_reshape)"
    unfolding read_ser_packed_header [OF pack_header_md0 md0_fields(1) md0_valid(3-5)] v0 dt fs
    by (simp add: file_read_def frombuffer_def reshape_def c0)
  have hdr: "pack_header md24 = Inr (header_bytes md24)"
    using md24_valid(2,1,3,4,5) by (rule pack_header_ok)
  have c: "chunks 2 [1, 2 :: byte] = [[1, 2]]" by (simp add: chunks_single)
  have tr: "md24\<lparr>observer := trim (observer md24), instrument := trim (instrument md24),
                 telescope := trim (telescope md24)\<rparr> = md24"
    using md0_valid(6-8) by (simp add: md24_def trim_trimmed)
  have r24: "read_ser (header_bytes md24 @ [1, 2]) =
        Inr (md24, [\<lparr>dtype = UInt16, shape = [1, 1], data = [513]\<rparr>], None)"
    unfolding read_ser_packed_header [OF hdr md24_valid(1,3,4,5)] v24 dt fs tr
    by (simp add: file_read_def frombuffer_def reshape_def c read_timestamps_def)
  from fs r0 r24 show ?thesis by simp
qed

text \<open>
  C10. For every input of at least 178 bytes whose header declares at least one frame
  and a width of 0, a height of 0 or a pixel depth below 8: \<open>read_ser\<close> never succeeds;
  and when the header is well formed (it has the file id, and its three text fields
  can be decoded), \<open>read_ser\<close> raises the end-of-file error of the first frame, whatever
  bytes follow the header.
\<close>

theorem read_ser_zero_size_frames:
  assumes "178 \<le> length input"
    and "1 \<le> from_le (field 38 4 input)"
    and "from_le (field 26 4 input) = 0 \<or> from_le (field 30 4 input) = 0
         \<or> from_le (field 34 4 input) < 8"
  shows "(\<exists>e. read_ser input = Inl e)
         \<and> (field 0 14 input = bytes_of LUCAM_RECORDER
              \<and> decodable (field 42 40 input) \<and> decodable (field 82 40 input)
              \<and> decodable (field 122 40 input)
            \<longrightarrow> read_ser input = Inl (ValueError Unexpected_end_of_file))"
proof
  show "\<exists>e. read_ser input = Inl e"
    unfolding read_ser_zero_size [OF assms]
    by (auto simp: bind_err_def split: sum.splits)
next
  show "field 0 14 input = bytes_of LUCAM_RECORDER
          \<and> decodable (field 42 40 input) \<and> decodable (field 82 40 input)
          \<and> decodable (field 122 40 input)
        \<longrightarrow> read_ser input = Inl (ValueError Unexpected_end_of_file)"
  proof
    assume a: "field 0 14 input = bytes_of LUCAM_RECORDER
          \<and> decodable (field 42 40 input) \<and> decodable (field 82 40 input)
          \<and> decodable (field 122 40 input)"
    obtain fid where 0: "decode_field (bytes_of LUCAM_RECORDER) = Inr fid"
      using decodable_decode_field [OF decodable_LUCAM] by blast
    obtain obs where 1: "decode_field (field 42 40 input) = Inr obs"
      using a decodable_decode_field by blast
    obtain ins where 2: "decode_field (field 82 40 input) = Inr ins"
      using a decodable_decode_field by blast
    obtain tel where 3: "decode_field (field 122 40 input) = Inr tel"
      using a decodable_decode_field by blast
    show "read_ser input = Inl (ValueError Unexpected_end_of_file)"
      unfolding read_ser_zero_size [OF assms] using a by (simp add: 0 1 2 3)
  qed
qed

theorem read_ser_zero_size_frames_witness:
  "178 \<le> length (zero_size_header @ [5, 6, 7])
   \<and> 1 \<le> from_le (field 38 4 (zero_size_header @ [5, 6, 7]))
   \<and> from_le (field 26 4 (zero_size_header @ [5, 6, 7])) = 0
   \<and> field 0 14 (zero_size_header @ [5, 6, 7]) = bytes_of LUCAM_RECORDER
   \<and> decodable (field 42 40 (zero_size_header @ [5, 6, 7]))
   \<and> decodable (field 82 40 (zero_size_header @ [5, 6, 7]))
   \<and> decodable (field 122 40 (zero_size_header @ [5, 6, 7]))
   \<and> read_ser (zero_size_header @ [5, 6, 7]) = Inl (ValueError Unexpected_end_of_file)"
  using read_ser_zero_size_frames [of "zero_size_header @ [5, 6, 7]"]
  by (simp add: zero_size_header_fields from_le_nuls decodable_nuls)

end
